theory Spec2Isabelle
  imports Complex_Main
begin

section \<open>Python values, exceptions and string helpers\<close>

text \<open>
  The script \<^verbatim>\<open>scripts/!adetailer.py\<close> is embedded function by function.
  Exceptions are values: a function that can raise returns \<open>error + 'a\<close>, with
  \<open>Inl\<close> carrying the exception. The constructors of \<open>error\<close> are the Python
  exception classes the script and its collaborators raise; \<open>OtherError\<close> stands for
  any class outside the listed ones.
\<close>

datatype error =
    ValueError string
  | TypeError string
  | IndexError string
  | KeyError string
  | LookupError string
  | AttributeError string
  | OtherError string

text \<open>
  \<^verbatim>\<open>isinstance(e, LookupError)\<close>: the class \<^verbatim>\<open>LookupError\<close> and its two
  subclasses.
\<close>

fun is_LookupError :: "error \<Rightarrow> bool" where
  "is_LookupError (LookupError m) = True"
| "is_LookupError (IndexError m) = True"
| "is_LookupError (KeyError m) = True"
| "is_LookupError e = False"

text \<open>
  The values that reach the script through \<^verbatim>\<open>*args_\<close>: the enable flag (a
  bool) and one mapping of widget state per stage. A scalar is what a widget holds.
\<close>

datatype scalar = PyNone | PyBool bool | PyInt int | PyFloat real | PyStr string

datatype pyarg = Scalar scalar | Mapping "(string \<times> scalar) list"

fun isinstance_bool :: "pyarg \<Rightarrow> bool" where
  "isinstance_bool (Scalar (PyBool b)) = True"
| "isinstance_bool a = False"

text \<open>\<^verbatim>\<open>str(n)\<close> for an int: decimal digits, a minus sign when negative.\<close>

function str_nat :: "nat \<Rightarrow> string" where
  "str_nat n =
     (if n < 10 then [''0123456789'' ! n]
      else str_nat (n div 10) @ [''0123456789'' ! (n mod 10)])"
  by pat_completeness auto
termination
  by (relation "measure id") auto

definition str_int :: "int \<Rightarrow> string" where
  "str_int i = (if i < 0 then CHR ''-'' # str_nat (nat (- i)) else str_nat (nat i))"

text \<open>\<^verbatim>\<open>sep.join(xs)\<close>.\<close>

fun join :: "string \<Rightarrow> string list \<Rightarrow> string" where
  "join sep [] = []"
| "join sep [x] = x"
| "join sep (x # y # ys) = x @ sep @ join sep (y # ys)"

text \<open>
  \<^verbatim>\<open>repr\<close> of a bool, of a tuple and of a list, given the \<^verbatim>\<open>repr\<close>s of
  the elements. A one-element tuple is printed with a trailing comma.
\<close>

definition repr_bool :: "bool \<Rightarrow> string" where
  "repr_bool b = (if b then ''True'' else ''False'')"

definition repr_tuple :: "string list \<Rightarrow> string" where
  "repr_tuple rs =
     (if length rs = 1 then ''('' @ hd rs @ '',)'' else ''('' @ join '', '' rs @ '')'')"

definition repr_list :: "string list \<Rightarrow> string" where
  "repr_list rs = ''['' @ join '', '' rs @ '']''"

text \<open>
  \<^verbatim>\<open>s.split(",")\<close>, \<^verbatim>\<open>s.strip()\<close>, \<^verbatim>\<open>s.lower()\<close> and
  \<^verbatim>\<open>s.startswith(t)\<close> on ASCII strings. \<open>is_space\<close> lists the ASCII characters
  Python's \<^verbatim>\<open>strip\<close> removes.
\<close>

fun split_comma :: "string \<Rightarrow> string list" where
  "split_comma [] = [[]]"
| "split_comma (c # cs) =
     (if c = CHR '','' then [] # split_comma cs
      else (case split_comma cs of
              [] \<Rightarrow> [[c]]
            | w # ws \<Rightarrow> (c # w) # ws))"

definition is_space :: "char \<Rightarrow> bool" where
  "is_space c \<longleftrightarrow>
     c \<in> set [CHR '' '', CHR 0x09, CHR 0x0A, CHR 0x0B, CHR 0x0C, CHR 0x0D,
              CHR 0x1C, CHR 0x1D, CHR 0x1E, CHR 0x1F]"

definition strip :: "string \<Rightarrow> string" where
  "strip s = rev (dropWhile is_space (rev (dropWhile is_space s)))"

definition lower_char :: "char \<Rightarrow> char" where
  "lower_char c =
     (case map_of (zip ''ABCDEFGHIJKLMNOPQRSTUVWXYZ'' ''abcdefghijklmnopqrstuvwxyz'') c of
        None \<Rightarrow> c
      | Some d \<Rightarrow> d)"

definition lower :: "string \<Rightarrow> string" where
  "lower s = map lower_char s"

definition startswith :: "string \<Rightarrow> string \<Rightarrow> bool" where
  "startswith s t \<longleftrightarrow> take (length t) s = t"

text \<open>
  \<^verbatim>\<open>xs[i]\<close>: a negative index counts from the end, an index out of range
  raises \<^verbatim>\<open>IndexError\<close>.
\<close>

definition subscript :: "'a list \<Rightarrow> int \<Rightarrow> error + 'a" where
  "subscript xs i =
     (if 0 \<le> i \<and> i < int (length xs) then Inr (xs ! nat i)
      else if i < 0 \<and> - int (length xs) \<le> i then Inr (xs ! nat (int (length xs) + i))
      else Inl (IndexError ''list index out of range''))"

section \<open>Module-level helpers\<close>

text \<open>
  \<^verbatim>\<open>ordinal(n)\<close> and \<^verbatim>\<open>suffix(n, c)\<close>. Python's \<^verbatim>\<open>%\<close> on ints is
  the floored remainder, which is \<open>mod\<close> on \<open>int\<close>.
\<close>

definition ordinal :: "int \<Rightarrow> string" where
  "ordinal n =
     str_int n @
       (if 11 \<le> n mod 100 \<and> n mod 100 \<le> 13 then ''th''
        else (case map_of [(1::int, ''st''), (2, ''nd''), (3, ''rd'')] (n mod 10) of
                None \<Rightarrow> ''th''
              | Some s \<Rightarrow> s))"

definition suffix :: "int \<Rightarrow> string \<Rightarrow> string" where
  "suffix n c = (if n = 0 then [] else c @ ordinal (n + 1))"

section \<open>Data model\<close>

text \<open>
  \<^verbatim>\<open>ADetailerArgs\<close>: the validated arguments of one stage, with the fields the
  script reads. The class itself lives in the \<^verbatim>\<open>adetailer\<close> package; its
  constructor is a parameter of the model (\<open>ADetailerArgs\<close> below).
\<close>

record ad_args =
  ad_model :: string
  ad_prompt :: string
  ad_negative_prompt :: string
  ad_conf :: real
  ad_denoising_strength :: real
  ad_mask_blur :: int
  ad_inpaint_full_res :: bool
  ad_inpaint_full_res_padding :: int
  ad_use_inpaint_width_height :: bool
  ad_inpaint_width :: int
  ad_inpaint_height :: int
  ad_use_steps :: bool
  ad_steps :: int
  ad_use_cfg_scale :: bool
  ad_cfg_scale :: real
  ad_controlnet_model :: string
  ad_controlnet_weight :: real

text \<open>
  A script of the host and the host's script runner; the script arguments are opaque
  objects of the host.
\<close>

record script_object =
  filename :: string

record script_runner =
  alwayson_scripts :: "script_object list"

typedecl py_object

text \<open>
  The host's processing object: the parent job \<^verbatim>\<open>p\<close> the hooks receive and the
  \<^verbatim>\<open>StableDiffusionProcessingImg2Img\<close> job the script builds are both of this
  class hierarchy, and the hooks are called on either. The record has the attributes the
  script reads or writes; \<open>p_idx\<close> and \<open>p_disable_adetailer\<close> are the attributes
  \<^verbatim>\<open>_idx\<close> and \<^verbatim>\<open>_disable_adetailer\<close> the script attaches, \<open>None\<close>
  while the attribute is absent. A per-image list the host has not filled is the empty
  list. Images are opaque (\<open>'img\<close>); a mask is an image.
\<close>

record 'img processing =
  p_prompt :: string
  p_negative_prompt :: string
  p_all_prompts :: "string list"
  p_all_negative_prompts :: "string list"
  p_seed :: int
  p_subseed :: int
  p_all_seeds :: "int list"
  p_all_subseeds :: "int list"
  p_subseed_strength :: real
  p_seed_resize_from_h :: int
  p_seed_resize_from_w :: int
  p_width :: int
  p_height :: int
  p_steps :: int
  p_cfg_scale :: real
  p_sampler_name :: string
  p_sd_model :: string
  p_outpath_samples :: string
  p_outpath_grids :: string
  p_styles :: "string list"
  p_tiling :: bool
  p_extra_generation_params :: "(string \<times> scalar) list"
  p_scripts :: script_runner
  p_script_args :: "py_object list"
  p_init_images :: "'img list"
  p_resize_mode :: int
  p_denoising_strength :: real
  p_mask :: "'img option"
  p_mask_blur :: int
  p_inpainting_fill :: int
  p_inpaint_full_res :: bool
  p_inpaint_full_res_padding :: int
  p_inpainting_mask_invert :: int
  p_batch_size :: int
  p_n_iter :: int
  p_do_not_save_samples :: bool
  p_do_not_save_grid :: bool
  p_image_mask :: "'img option"
  p_idx :: "int option"
  p_disable_adetailer :: "bool option"

text \<open>The detectors' result: \<^verbatim>\<open>pred.masks\<close> and \<^verbatim>\<open>pred.preview\<close>.\<close>

record 'img pred =
  pred_masks :: "'img list"
  pred_preview :: "'img option"

text \<open>
  The settings \<^verbatim>\<open>on_ui_settings\<close> registers in \<^verbatim>\<open>opts.data\<close>, \<open>None\<close>
  while a key is absent, and the two command-line flags the script looks at.
\<close>

record opts_data =
  ad_max_models :: "int option"
  ad_save_previews :: "bool option"
  ad_save_images_before :: "bool option"
  ad_only_seleted_scripts :: "bool option"
  ad_script_names :: "string option"

record cmd_opts =
  lowvram :: "bool option"
  medvram :: "bool option"

text \<open>
  Modelled from the spec: the module \<^verbatim>\<open>controlnet_ext\<close> is not part of the script.
  The conditioning-model extension is a pass-through that injects its parameters into the
  job's script arguments: \<open>update_scripts_args\<close> maps the job's \<^verbatim>\<open>script_args\<close>
  to the new ones. \<open>controlnet_exists\<close> is the module's flag of that name;
  \<open>init_controlnet\<close> is \<open>Inl\<close> of the traceback when initialisation raises
  \<^verbatim>\<open>ImportError\<close>, else \<open>Inr\<close> of \<^verbatim>\<open>cn_available\<close> afterwards; a fresh
  extension object has \<^verbatim>\<open>cn_available\<close> unset.
\<close>

record controlnet_module =
  controlnet_exists :: bool
  init_controlnet :: "string + bool"
  update_scripts_args :: "py_object list \<Rightarrow> string \<Rightarrow> real \<Rightarrow> py_object list"

text \<open>
  Everything else the script calls that is not defined in the script: the model registry
  (\<^verbatim>\<open>model_mapping\<close>, an ordered dict), the two detectors, the mask processor, the
  host's regeneration engine (\<open>process_images\<close> returns \<^verbatim>\<open>processed.images\<close>), the
  functions of the \<^verbatim>\<open>adetailer\<close> package, the host's settings, the platform, and
  the Python built-ins \<^verbatim>\<open>repr\<close>, \<^verbatim>\<open>Path(...).stem\<close> and the text of the
  \<^verbatim>\<open>TypeError\<close> raised by \<^verbatim>\<open>**\<close> on a non-mapping. The detectors and the
  engine are functions of their arguments.
\<close>

record 'img env =
  model_mapping :: "(string \<times> string) list"
  mediapipe_predict :: "string \<Rightarrow> 'img \<Rightarrow> real \<Rightarrow> error + 'img pred"
  ultralytics_predict :: "string \<Rightarrow> 'img \<Rightarrow> real \<Rightarrow> string \<Rightarrow> error + 'img pred"
  mask_preprocess :: "'img list \<Rightarrow> 'img list"
  process_images :: "'img processing \<Rightarrow> error + 'img list"
  enable_check :: "pyarg list \<Rightarrow> error + bool"
  ADetailerArgs :: "(string \<times> scalar) list \<Rightarrow> string + ad_args"
  args_extra_params :: "ad_args \<Rightarrow> string \<Rightarrow> (string \<times> scalar) list"
  ALL_ARGS_attrs :: "string list"
  version :: string
  opts :: opts_data
  cmdline :: cmd_opts
  platform_system :: string
  controlnet :: controlnet_module
  path_stem :: "string \<Rightarrow> string"
  repr_str :: "string \<Rightarrow> string"
  repr_float :: "real \<Rightarrow> string"
  not_a_mapping_text :: "scalar \<Rightarrow> string"

text \<open>
  What the script does to the outside, in order: a detector call, an engine call with
  the job it was given, a line printed (to the standard output or the standard error), an
  image handed to the host for saving, the parameter file written. Saving and writing
  are the host's file operations; their failures are outside the model.
\<close>

datatype 'img event =
    MediapipePredict string 'img real
  | UltralyticsPredict string 'img real string
  | ProcessImages "'img processing"
  | Print string
  | PrintErr string
  | SaveImage "'img option" string int string string
  | WriteParamsTxt

text \<open>
  The mutable state a hook call works on: the script object's own attribute
  \<^verbatim>\<open>self.controlnet_ext\<close> (\<open>None\<close>, or \<open>Some\<close> of its \<^verbatim>\<open>cn_available\<close>),
  \<^verbatim>\<open>self.ultralytics_device\<close>, the image \<^verbatim>\<open>pp.image\<close>, and the events so far
  (oldest first).
\<close>

record 'img state =
  controlnet_ext :: "bool option"
  ultralytics_device :: string
  pp_image :: 'img
  events :: "'img event list"

definition emit :: "'img event \<Rightarrow> 'img state \<Rightarrow> 'img state" where
  "emit e st = st\<lparr>events := events st @ [e]\<rparr>"

definition engine_calls :: "'img event list \<Rightarrow> 'img processing list" where
  "engine_calls es = concat (map (\<lambda>e. case e of ProcessImages j \<Rightarrow> [j] | _ \<Rightarrow> []) es)"

definition printed :: "'img event list \<Rightarrow> string list" where
  "printed es = concat (map (\<lambda>e. case e of Print m \<Rightarrow> [m] | _ \<Rightarrow> []) es)"

text \<open>The events a step added: those of the later state beyond the earlier one's.\<close>

definition new_events :: "'img state \<Rightarrow> 'img state \<Rightarrow> 'img event list" where
  "new_events st st' = drop (length (events st)) (events st')"

section \<open>The script's functions\<close>

definition newline :: string where
  "newline = [CHR 0x0A]"

fun repr_scalar :: "'img env \<Rightarrow> scalar \<Rightarrow> string" where
  "repr_scalar env PyNone = ''None''"
| "repr_scalar env (PyBool b) = repr_bool b"
| "repr_scalar env (PyInt i) = str_int i"
| "repr_scalar env (PyFloat r) = repr_float env r"
| "repr_scalar env (PyStr s) = repr_str env s"

fun repr_arg :: "'img env \<Rightarrow> pyarg \<Rightarrow> string" where
  "repr_arg env (Scalar v) = repr_scalar env v"
| "repr_arg env (Mapping m) =
     ''{'' @ join '', '' (map (\<lambda>(k, v). repr_str env k @ '': '' @ repr_scalar env v) m) @ ''}''"

fun type_text :: "scalar \<Rightarrow> string" where
  "type_text PyNone = ''<class 'NoneType'>''"
| "type_text (PyBool b) = ''<class 'bool'>''"
| "type_text (PyInt i) = ''<class 'int'>''"
| "type_text (PyFloat r) = ''<class 'float'>''"
| "type_text (PyStr s) = ''<class 'str'>''"

text \<open>
  \<^verbatim>\<open>is_ad_enabled\<close>. The message is the template after \<^verbatim>\<open>dedent\<close>: the common
  margin of 23 blanks is gone from its lines and the last line, all blanks, is empty.
\<close>

definition is_ad_enabled :: "'img env \<Rightarrow> pyarg list \<Rightarrow> error + bool" where
  "is_ad_enabled env args_in =
     (if length args_in = 0 \<or> (length args_in = 1 \<and> isinstance_bool (args_in ! 0)) then
        Inl (ValueError
          (newline @ ''[-] ADetailer: Not enough arguments passed to ADetailer.'' @ newline @
           ''    input: '' @ repr_tuple (map (repr_arg env) args_in) @ newline))
      else enable_check env args_in)"

text \<open>
  \<^verbatim>\<open>get_args\<close>: the loop over \<^verbatim>\<open>enumerate(args, 1)\<close>. \<^verbatim>\<open>**arg_dict\<close> on a
  value that is no mapping raises the \<^verbatim>\<open>TypeError\<close>; a validation failure of the
  constructor is the \<^verbatim>\<open>ValueError\<close>.
\<close>

definition dump_attr :: "'img env \<Rightarrow> (string \<times> scalar) list \<Rightarrow> string \<Rightarrow> string" where
  "dump_attr env arg_dict attr =
     (let arg = (case map_of arg_dict attr of None \<Rightarrow> PyNone | Some v \<Rightarrow> v);
          dtype = type_text arg;
          shown = (if arg = PyNone then ''DEFAULT'' else repr_scalar env arg)
      in ''    '' @ attr @ '': '' @ shown @ '' ('' @ dtype @ '')'')"

fun get_args_loop :: "'img env \<Rightarrow> int \<Rightarrow> pyarg list \<Rightarrow> error + ad_args list" where
  "get_args_loop env n [] = Inr []"
| "get_args_loop env n (Scalar v # rest) =
     Inl (TypeError
       (''[-] ADetailer: '' @ ordinal n @ '' - Non-mapping arguments are sent: '' @
        repr_arg env (Scalar v) @ newline @ not_a_mapping_text env v))"
| "get_args_loop env n (Mapping arg_dict # rest) =
     (case ADetailerArgs env arg_dict of
        Inl e \<Rightarrow>
          Inl (ValueError
            (join newline
              ((''[-] ADetailer: ValidationError when validating '' @ ordinal n @
                '' arguments: '' @ e @ newline)
               # map (dump_attr env arg_dict) (ALL_ARGS_attrs env))))
      | Inr inp \<Rightarrow>
          (case get_args_loop env (n + 1) rest of
             Inl e \<Rightarrow> Inl e
           | Inr all_inputs \<Rightarrow> Inr (inp # all_inputs)))"

definition get_args :: "'img env \<Rightarrow> pyarg list \<Rightarrow> error + ad_args list" where
  "get_args env args_in =
     (case args_in of
        [] \<Rightarrow> Inl (IndexError ''tuple index out of range'')
      | a0 # rest \<Rightarrow> get_args_loop env 1 (if isinstance_bool a0 then rest else args_in))"

text \<open>\<^verbatim>\<open>d[k] = v\<close> and \<^verbatim>\<open>d.update(items)\<close> on an ordered dict.\<close>

fun dict_set :: "'k \<Rightarrow> 'v \<Rightarrow> ('k \<times> 'v) list \<Rightarrow> ('k \<times> 'v) list" where
  "dict_set k v [] = [(k, v)]"
| "dict_set k v ((k', v') # kvs) =
     (if k' = k then (k, v) # kvs else (k', v') # dict_set k v kvs)"

definition dict_update :: "('k \<times> 'v) list \<Rightarrow> ('k \<times> 'v) list \<Rightarrow> ('k \<times> 'v) list" where
  "dict_update d items = foldl (\<lambda>acc (k, v). dict_set k v acc) d items"

fun extra_params_loop ::
  "'img env \<Rightarrow> int \<Rightarrow> ad_args list \<Rightarrow> (string \<times> scalar) list \<Rightarrow> (string \<times> scalar) list" where
  "extra_params_loop env n [] params = params"
| "extra_params_loop env n (args # rest) params =
     extra_params_loop env (n + 1) rest
       (dict_update params (args_extra_params env args (suffix n '' '')))"

definition extra_params :: "'img env \<Rightarrow> ad_args list \<Rightarrow> (string \<times> scalar) list" where
  "extra_params env arg_list =
     dict_set ''ADetailer version'' (PyStr (version env)) (extra_params_loop env 0 arg_list [])"

text \<open>
  \<^verbatim>\<open>get_ultralytics_device\<close>. \<^verbatim>\<open>getattr(cmd_opts, vram, False)\<close> is the flag,
  \<open>False\<close> while the attribute is absent.
\<close>

definition getattr_flag :: "bool option \<Rightarrow> bool" where
  "getattr_flag a = (case a of None \<Rightarrow> False | Some b \<Rightarrow> b)"

definition get_ultralytics_device :: "'img env \<Rightarrow> string" where
  "get_ultralytics_device env =
     (let device = [] in
      if platform_system env = ''Darwin'' then device
      else if getattr_flag (lowvram (cmdline env)) \<or> getattr_flag (medvram (cmdline env))
        then ''cpu''
      else device)"

text \<open>\<^verbatim>\<open>get_prompt\<close> and \<^verbatim>\<open>get_seed\<close>, branch by branch.\<close>

definition get_prompt :: "'img processing \<Rightarrow> ad_args \<Rightarrow> error + (string \<times> string)" where
  "get_prompt p args =
     (case p_idx p of
        None \<Rightarrow> Inl (AttributeError ''_idx'')
      | Some i \<Rightarrow>
          (case (if ad_prompt args \<noteq> [] then Inr (ad_prompt args)
                 else if p_all_prompts p = [] then Inr (p_prompt p)
                 else if i < int (length (p_all_prompts p)) then subscript (p_all_prompts p) i
                 else subscript (p_all_prompts p) (i mod int (length (p_all_prompts p)))) of
             Inl e \<Rightarrow> Inl e
           | Inr prompt \<Rightarrow>
               (case (if ad_negative_prompt args \<noteq> [] then Inr (ad_negative_prompt args)
                      else if p_all_negative_prompts p = [] then Inr (p_negative_prompt p)
                      else if i < int (length (p_all_negative_prompts p))
                        then subscript (p_all_negative_prompts p) i
                      else subscript (p_all_negative_prompts p)
                             (i mod int (length (p_all_negative_prompts p)))) of
                  Inl e \<Rightarrow> Inl e
                | Inr negative_prompt \<Rightarrow> Inr (prompt, negative_prompt))))"

definition get_seed :: "'img processing \<Rightarrow> error + (int \<times> int)" where
  "get_seed p =
     (case p_idx p of
        None \<Rightarrow> Inl (AttributeError ''_idx'')
      | Some i \<Rightarrow>
          (case (if p_all_seeds p = [] then Inr (p_seed p)
                 else if i < int (length (p_all_seeds p)) then subscript (p_all_seeds p) i
                 else subscript (p_all_seeds p) (i mod int (length (p_all_seeds p)))) of
             Inl e \<Rightarrow> Inl e
           | Inr seed \<Rightarrow>
               (case (if p_all_subseeds p = [] then Inr (p_subseed p)
                      else if i < int (length (p_all_subseeds p))
                        then subscript (p_all_subseeds p) i
                      else subscript (p_all_subseeds p)
                             (i mod int (length (p_all_subseeds p)))) of
                  Inl e \<Rightarrow> Inl e
                | Inr subseed \<Rightarrow> Inr (seed, subseed))))"

definition get_width_height :: "'img processing \<Rightarrow> ad_args \<Rightarrow> int \<times> int" where
  "get_width_height p args =
     (if ad_use_inpaint_width_height args then (ad_inpaint_width args, ad_inpaint_height args)
      else (p_width p, p_height p))"

definition get_steps :: "'img processing \<Rightarrow> ad_args \<Rightarrow> int" where
  "get_steps p args = (if ad_use_steps args then ad_steps args else p_steps p)"

definition get_cfg_scale :: "'img processing \<Rightarrow> ad_args \<Rightarrow> real" where
  "get_cfg_scale p args = (if ad_use_cfg_scale args then ad_cfg_scale args else p_cfg_scale p)"

text \<open>
  \<^verbatim>\<open>script_filter\<close>: the copy of the parent's script runner, its always-on scripts
  filtered by the stem of their file name unless the setting is off.
\<close>

definition script_filter :: "'img env \<Rightarrow> 'img processing \<Rightarrow> ad_args \<Rightarrow> script_runner" where
  "script_filter env p args =
     (let script_runner = p_scripts p;
          ad_only_seleted =
            (case ad_only_seleted_scripts (opts env) of None \<Rightarrow> True | Some b \<Rightarrow> b)
      in if \<not> ad_only_seleted then script_runner
         else
           let default_names = ''dynamic_prompting,dynamic_thresholding,wildcards,wildcard_recursive'';
               names = (case ad_script_names (opts env) of None \<Rightarrow> default_names | Some s \<Rightarrow> s);
               split_names =
                 set (concat (map (\<lambda>script_name. [script_name, strip script_name])
                                  (split_comma names)));
               script_names_set =
                 (if ad_controlnet_model args \<noteq> ''None'' then insert ''controlnet'' split_names
                  else split_names)
           in script_runner
                \<lparr>alwayson_scripts :=
                   filter (\<lambda>script_object.
                             path_stem env (filename script_object) \<in> script_names_set)
                          (alwayson_scripts script_runner)\<rparr>)"

text \<open>\<^verbatim>\<open>init_controlnet_ext\<close> and \<^verbatim>\<open>update_controlnet_args\<close>.\<close>

definition init_controlnet_ext :: "'img env \<Rightarrow> 'img state \<Rightarrow> 'img state" where
  "init_controlnet_ext env st =
     (if controlnet_ext st \<noteq> None then st
      else if controlnet_exists (controlnet env) then
        (case init_controlnet (controlnet env) of
           Inl error \<Rightarrow>
             emit (PrintErr (''[-] ADetailer: ControlNetExt init failed:'' @ newline @ error))
               (st\<lparr>controlnet_ext := Some False\<rparr>)
         | Inr available \<Rightarrow> st\<lparr>controlnet_ext := Some available\<rparr>)
      else st\<lparr>controlnet_ext := Some False\<rparr>)"

definition update_controlnet_args ::
  "'img env \<Rightarrow> 'img processing \<Rightarrow> ad_args \<Rightarrow> 'img state \<Rightarrow> 'img processing \<times> 'img state" where
  "update_controlnet_args env p args st =
     (let st1 = (if controlnet_ext st = None then init_controlnet_ext env st else st)
      in if controlnet_ext st1 = Some True \<and> ad_controlnet_model args \<noteq> ''None'' then
           (p\<lparr>p_script_args :=
                update_scripts_args (controlnet env) (p_script_args p) (ad_controlnet_model args)
                  (ad_controlnet_weight args)\<rparr>, st1)
         else (p, st1))"

text \<open>
  \<^verbatim>\<open>get_i2i_p\<close>. The constructor receives the keyword arguments of the source; the
  attributes it is not given (the per-image lists, the mask image, the script's own two
  attributes) start empty or absent, and \<^verbatim>\<open>scripts\<close>, \<^verbatim>\<open>script_args\<close> and
  \<^verbatim>\<open>_disable_adetailer\<close> are assigned right after. \<^verbatim>\<open>copy\<close> and
  \<^verbatim>\<open>deepcopy\<close> of a value are the value.
\<close>

definition get_i2i_p ::
  "'img env \<Rightarrow> 'img processing \<Rightarrow> ad_args \<Rightarrow> 'img \<Rightarrow> 'img state
     \<Rightarrow> 'img state \<times> (error + 'img processing)" where
  "get_i2i_p env p args img st =
     (case get_prompt p args of
        Inl e \<Rightarrow> (st, Inl e)
      | Inr (prompt, negative_prompt) \<Rightarrow>
     (case get_seed p of
        Inl e \<Rightarrow> (st, Inl e)
      | Inr (seed, subseed) \<Rightarrow>
     (let (width, height) = get_width_height p args;
          steps = get_steps p args;
          cfg_scale = get_cfg_scale p args;
          sampler_name =
            (if p_sampler_name p \<in> set [''PLMS'', ''UniPC''] then ''Euler''
             else p_sampler_name p);
          i2i =
            \<lparr>p_prompt = prompt,
             p_negative_prompt = negative_prompt,
             p_all_prompts = [],
             p_all_negative_prompts = [],
             p_seed = seed,
             p_subseed = subseed,
             p_all_seeds = [],
             p_all_subseeds = [],
             p_subseed_strength = p_subseed_strength p,
             p_seed_resize_from_h = p_seed_resize_from_h p,
             p_seed_resize_from_w = p_seed_resize_from_w p,
             p_width = width,
             p_height = height,
             p_steps = steps,
             p_cfg_scale = cfg_scale,
             p_sampler_name = sampler_name,
             p_sd_model = p_sd_model p,
             p_outpath_samples = p_outpath_samples p,
             p_outpath_grids = p_outpath_grids p,
             p_styles = p_styles p,
             p_tiling = p_tiling p,
             p_extra_generation_params = p_extra_generation_params p,
             p_scripts = script_filter env p args,
             p_script_args = p_script_args p,
             p_init_images = [img],
             p_resize_mode = 0,
             p_denoising_strength = ad_denoising_strength args,
             p_mask = None,
             p_mask_blur = ad_mask_blur args,
             p_inpainting_fill = 1,
             p_inpaint_full_res = ad_inpaint_full_res args,
             p_inpaint_full_res_padding = ad_inpaint_full_res_padding args,
             p_inpainting_mask_invert = 0,
             p_batch_size = 1,
             p_n_iter = 1,
             p_do_not_save_samples = True,
             p_do_not_save_grid = True,
             p_image_mask = None,
             p_idx = None,
             p_disable_adetailer = Some True\<rparr>
      in if ad_controlnet_model args \<noteq> ''None'' then
           (case update_controlnet_args env i2i args st of (i2i', st') \<Rightarrow> (st', Inr i2i'))
         else (st, Inr i2i))))"

text \<open>
  \<^verbatim>\<open>save_image\<close>: the seed is read before the setting is looked at.
  \<open>opts_get\<close> is \<^verbatim>\<open>opts.data.get(condition, False)\<close> as a truth value.
\<close>

definition opts_get :: "opts_data \<Rightarrow> string \<Rightarrow> bool" where
  "opts_get od key =
     (if key = ''ad_save_previews'' then getattr_flag (ad_save_previews od)
      else if key = ''ad_save_images_before'' then getattr_flag (ad_save_images_before od)
      else if key = ''ad_only_seleted_scripts'' then getattr_flag (ad_only_seleted_scripts od)
      else if key = ''ad_script_names'' then
        (case ad_script_names od of None \<Rightarrow> False | Some s \<Rightarrow> s \<noteq> [])
      else if key = ''ad_max_models'' then
        (case ad_max_models od of None \<Rightarrow> False | Some k \<Rightarrow> k \<noteq> 0)
      else False)"

definition save_image ::
  "'img env \<Rightarrow> 'img processing \<Rightarrow> 'img option \<Rightarrow> string \<Rightarrow> string \<Rightarrow> 'img state
     \<Rightarrow> 'img state \<times> (error + unit)" where
  "save_image env p img condition sfx st =
     (case p_idx p of
        None \<Rightarrow> (st, Inl (AttributeError ''_idx''))
      | Some i \<Rightarrow>
     (case get_seed p of
        Inl e \<Rightarrow> (st, Inl e)
      | Inr (seed, unused) \<Rightarrow>
          if opts_get (opts env) condition then
            (case (if i < int (length (p_all_prompts p)) then subscript (p_all_prompts p) i
                   else Inr (p_prompt p)) of
               Inl e \<Rightarrow> (st, Inl e)
             | Inr prompt \<Rightarrow>
                 (emit (SaveImage img (p_outpath_samples p) seed prompt sfx) st, Inr ()))
          else (st, Inr ())))"

text \<open>\<^verbatim>\<open>get_ad_model\<close>: the registry lookup.\<close>

definition get_ad_model :: "'img env \<Rightarrow> string \<Rightarrow> error + string" where
  "get_ad_model env name =
     (case map_of (model_mapping env) name of
        None \<Rightarrow>
          Inl (ValueError
            (''[-] ADetailer: Model '' @ repr_str env name @ '' not found. Available models: '' @
             repr_list (map (repr_str env) (map fst (model_mapping env)))))
      | Some m \<Rightarrow> Inr m)"

text \<open>
  \<^verbatim>\<open>process\<close>: the hook before generation. It returns the parent job, whose
  \<^verbatim>\<open>extra_generation_params\<close> it updates.
\<close>

definition process ::
  "'img env \<Rightarrow> 'img processing \<Rightarrow> pyarg list \<Rightarrow> 'img processing \<times> (error + unit)" where
  "process env p args_in =
     (if getattr_flag (p_disable_adetailer p) then (p, Inr ())
      else
        (case is_ad_enabled env args_in of
           Inl e \<Rightarrow> (p, Inl e)
         | Inr enabled \<Rightarrow>
             if enabled then
               (case get_args env args_in of
                  Inl e \<Rightarrow> (p, Inl e)
                | Inr arg_list \<Rightarrow>
                    (p\<lparr>p_extra_generation_params :=
                         dict_update (p_extra_generation_params p) (extra_params env arg_list)\<rparr>,
                     Inr ()))
             else (p, Inr ())))"

text \<open>
  The detector call of \<^verbatim>\<open>_postprocess_image\<close>: the choice of the predictor, the
  registry lookup for the generic backend, and the call itself. The source wraps the call
  in \<^verbatim>\<open>ChangeTorchLoad\<close>, which swaps \<^verbatim>\<open>torch.load\<close> for the duration of
  the call and restores it; that is inside the detector as far as the model goes.
\<close>

definition predict ::
  "'img env \<Rightarrow> ad_args \<Rightarrow> 'img state \<Rightarrow> 'img state \<times> (error + 'img pred)" where
  "predict env args st =
     (let is_mediapipe = startswith (lower (ad_model args)) ''mediapipe'' in
      if is_mediapipe then
        (emit (MediapipePredict (ad_model args) (pp_image st) (ad_conf args)) st,
         mediapipe_predict env (ad_model args) (pp_image st) (ad_conf args))
      else
        (case get_ad_model env (ad_model args) of
           Inl e \<Rightarrow> (st, Inl e)
         | Inr handle \<Rightarrow>
             (emit (UltralyticsPredict handle (pp_image st) (ad_conf args)
                      (ultralytics_device st)) st,
              ultralytics_predict env handle (pp_image st) (ad_conf args)
                (ultralytics_device st))))"

text \<open>
  The loop \<^verbatim>\<open>for j in range(steps)\<close> of \<^verbatim>\<open>_postprocess_image\<close>, over the masks
  from \<^verbatim>\<open>masks[j]\<close> on: \<open>p2\<close> is the job of this iteration, \<open>processed\<close> the images
  of the last engine call.
\<close>

fun regenerate ::
  "'img env \<Rightarrow> 'img processing \<Rightarrow> int \<Rightarrow> int \<Rightarrow> 'img list \<Rightarrow> int \<Rightarrow> 'img processing
     \<Rightarrow> 'img list option \<Rightarrow> 'img state \<Rightarrow> 'img state \<times> (error + 'img list option)" where
  "regenerate env i2i seed subseed [] j p2 processed st = (st, Inr processed)"
| "regenerate env i2i seed subseed (m # rest) j p2 processed st =
     (let job = p2\<lparr>p_image_mask := Some m\<rparr>;
          st1 = emit (ProcessImages job) st
      in case process_images env job of
           Inl e \<Rightarrow> (st1, Inl e)
         | Inr images \<Rightarrow>
             (case subscript images 0 of
                Inl e \<Rightarrow> (st1, Inl e)
              | Inr img \<Rightarrow>
                  regenerate env i2i seed subseed rest (j + 1)
                    (i2i\<lparr>p_init_images := [img],
                         p_seed := seed + j + 1,
                         p_subseed := subseed + j + 1\<rparr>)
                    (Some images) st1))"

text \<open>
  \<^verbatim>\<open>_postprocess_image\<close>: one stage on the current \<^verbatim>\<open>pp.image\<close>.
  \<open>nothing_detected\<close> is the line it prints when no mask is left, for the image index
  \<open>i\<close> and the stage index \<open>n\<close>.
\<close>

definition nothing_detected :: "int \<Rightarrow> int \<Rightarrow> string" where
  "nothing_detected i n =
     ''[-] ADetailer: nothing detected on image '' @ str_int (i + 1) @
     '' with '' @ ordinal (n + 1) @ '' settings.''"

definition private_postprocess_image ::
  "'img env \<Rightarrow> 'img processing \<Rightarrow> ad_args \<Rightarrow> int \<Rightarrow> 'img state
     \<Rightarrow> 'img state \<times> (error + bool)" where
  "private_postprocess_image env p args n st =
     (case p_idx p of
        None \<Rightarrow> (st, Inl (AttributeError ''_idx''))
      | Some i \<Rightarrow>
     (case get_i2i_p env p args (pp_image st) st of
        (st1, Inl e) \<Rightarrow> (st1, Inl e)
      | (st1, Inr i2i) \<Rightarrow>
     (case get_seed p of
        Inl e \<Rightarrow> (st1, Inl e)
      | Inr (seed, subseed) \<Rightarrow>
     (case predict env args st1 of
        (st2, Inl e) \<Rightarrow> (st2, Inl e)
      | (st2, Inr pred) \<Rightarrow>
     (let masks = mask_preprocess env (pred_masks pred) in
      if masks = [] then
        (emit (Print (nothing_detected i n)) st2, Inr False)
      else
        (case save_image env p (pred_preview pred) ''ad_save_previews''
                (''-ad-preview'' @ suffix n ''-'') st2 of
           (st3, Inl e) \<Rightarrow> (st3, Inl e)
         | (st3, Inr u) \<Rightarrow>
        (let steps = int (length masks);
             st4 = (if startswith (lower (ad_model args)) ''mediapipe''
                    then emit (Print (''mediapipe: '' @ str_int steps @ '' detected.'')) st3
                    else st3)
         in case regenerate env i2i seed subseed masks 0 i2i None st4 of
              (st5, Inl e) \<Rightarrow> (st5, Inl e)
            | (st5, Inr None) \<Rightarrow> (st5, Inr False)
            | (st5, Inr (Some images)) \<Rightarrow>
                (case subscript images 0 of
                   Inl e \<Rightarrow> (st5, Inl e)
                 | Inr img \<Rightarrow> (st5\<lparr>pp_image := img\<rparr>, Inr True)))))))))"

text \<open>
  \<^verbatim>\<open>postprocess_image\<close>: the hook after each generated image. \<open>stages\<close> is its loop
  over \<^verbatim>\<open>enumerate(arg_list)\<close>. The last step writes the parameter file when the image
  is the last of the batch; whatever that step raises is discarded.
\<close>

fun stages ::
  "'img env \<Rightarrow> 'img processing \<Rightarrow> int \<Rightarrow> ad_args list \<Rightarrow> bool \<Rightarrow> 'img state
     \<Rightarrow> 'img state \<times> (error + bool)" where
  "stages env p n [] is_processed st = (st, Inr is_processed)"
| "stages env p n (args # rest) is_processed st =
     (if ad_model args = ''None'' then stages env p (n + 1) rest is_processed st
      else
        (case private_postprocess_image env p args n st of
           (st1, Inl e) \<Rightarrow> (st1, Inl e)
         | (st1, Inr b) \<Rightarrow> stages env p (n + 1) rest (is_processed \<or> b) st1))"

definition postprocess_image ::
  "'img env \<Rightarrow> 'img processing \<Rightarrow> pyarg list \<Rightarrow> 'img state
     \<Rightarrow> 'img processing \<times> 'img state \<times> (error + unit)" where
  "postprocess_image env p args_in st =
     (if getattr_flag (p_disable_adetailer p) then (p, st, Inr ())
      else
        (case is_ad_enabled env args_in of
           Inl e \<Rightarrow> (p, st, Inl e)
         | Inr enabled \<Rightarrow>
             if \<not> enabled then (p, st, Inr ())
             else
               (let p1 = p\<lparr>p_idx := Some ((case p_idx p of None \<Rightarrow> - 1 | Some k \<Rightarrow> k) + 1)\<rparr>;
                    init_image = pp_image st
                in case get_args env args_in of
                     Inl e \<Rightarrow> (p1, st, Inl e)
                   | Inr arg_list \<Rightarrow>
                       (case stages env p1 0 arg_list False st of
                          (st1, Inl e) \<Rightarrow> (p1, st1, Inl e)
                        | (st1, Inr is_processed) \<Rightarrow>
                            (case (if is_processed
                                   then save_image env p1 (Some init_image)
                                          ''ad_save_images_before'' ''-ad-before'' st1
                                   else (st1, Inr ())) of
                               (st2, Inl e) \<Rightarrow> (p1, st2, Inl e)
                             | (st2, Inr u) \<Rightarrow>
                                 (p1,
                                  (if p_idx p1 = Some (int (length (p_all_prompts p1)) - 1)
                                   then emit WriteParamsTxt st2 else st2),
                                  Inr ()))))))"

section \<open>Image threading\<close>

text \<open>
  A sequence of engine calls is chained from an image when the first job's input is that
  image and every later job's input is the first image the engine returned for the job
  just before it.
\<close>

fun chained :: "'img env \<Rightarrow> 'img \<Rightarrow> 'img processing list \<Rightarrow> bool" where
  "chained env img [] = True"
| "chained env img (job # jobs) =
     (p_init_images job = [img] \<and>
      (case jobs of
         [] \<Rightarrow> True
       | next_job # later \<Rightarrow>
           (case process_images env job of
              Inr (out # others) \<Rightarrow> chained env out jobs
            | other \<Rightarrow> False)))"

section \<open>A concrete configuration\<close>

text \<open>
  A small installation on which the properties below are exercised. Images and masks
  are numbers; the engine returns one image computed from the job's input image and
  mask; the generic detector finds three regions with the face model (the second one
  empty), one with the hand model and none with the person model; the mask processor
  drops the empty mask \<open>0\<close>. \<open>posix_stem\<close> is \<^verbatim>\<open>Path(path).stem\<close> for a POSIX
  path: the last component without its last suffix.
\<close>

definition posix_stem :: "string \<Rightarrow> string" where
  "posix_stem path =
     (let name = rev (takeWhile (\<lambda>c. c \<noteq> CHR ''/'') (rev path));
          tail = takeWhile (\<lambda>c. c \<noteq> CHR ''.'') (rev name)
      in if CHR ''.'' \<in> set name \<and> tail \<noteq> [] \<and> Suc (length tail) < length name
         then take (length name - Suc (length tail)) name
         else name)"

definition example_args :: ad_args where
  "example_args =
     \<lparr>ad_model = ''face_yolov8n.pt'',
      ad_prompt = [],
      ad_negative_prompt = [],
      ad_conf = 30,
      ad_denoising_strength = 4 / 10,
      ad_mask_blur = 4,
      ad_inpaint_full_res = True,
      ad_inpaint_full_res_padding = 0,
      ad_use_inpaint_width_height = False,
      ad_inpaint_width = 512,
      ad_inpaint_height = 512,
      ad_use_steps = False,
      ad_steps = 28,
      ad_use_cfg_scale = False,
      ad_cfg_scale = 7,
      ad_controlnet_model = ''None'',
      ad_controlnet_weight = 1\<rparr>"

definition example_env :: "nat env" where
  "example_env =
     \<lparr>model_mapping =
        [(''face_yolov8n.pt'', ''/models/adetailer/face_yolov8n.pt''),
         (''hand_yolov8n.pt'', ''/models/adetailer/hand_yolov8n.pt''),
         (''person_yolov8n-seg.pt'', ''/models/adetailer/person_yolov8n-seg.pt'')],
      mediapipe_predict = (\<lambda>name img conf. Inr \<lparr>pred_masks = [], pred_preview = None\<rparr>),
      ultralytics_predict =
        (\<lambda>handle img conf device.
           if handle = ''/models/adetailer/face_yolov8n.pt''
             then Inr \<lparr>pred_masks = [1, 0, 2], pred_preview = Some 99\<rparr>
           else if handle = ''/models/adetailer/hand_yolov8n.pt''
             then Inr \<lparr>pred_masks = [3], pred_preview = Some 98\<rparr>
           else Inr \<lparr>pred_masks = [], pred_preview = None\<rparr>),
      mask_preprocess = filter (\<lambda>m. m \<noteq> 0),
      process_images =
        (\<lambda>job. case (p_init_images job, p_image_mask job) of
                  (img # rest, Some m) \<Rightarrow> Inr [10 * img + m]
                | other \<Rightarrow> Inl (OtherError ''nothing to inpaint'')),
      enable_check =
        (\<lambda>args_in. case args_in of Scalar (PyBool b) # rest \<Rightarrow> Inr b | other \<Rightarrow> Inr True),
      ADetailerArgs =
        (\<lambda>arg_dict. case map_of arg_dict ''ad_model'' of
                       None \<Rightarrow> Inr example_args
                     | Some (PyStr s) \<Rightarrow> Inr (example_args\<lparr>ad_model := s\<rparr>)
                     | Some other \<Rightarrow> Inl ''ad_model: str type expected''),
      args_extra_params =
        (\<lambda>args sfx. [(''ADetailer model'' @ sfx, PyStr (ad_model args))]),
      ALL_ARGS_attrs = [''ad_model'', ''ad_prompt'', ''ad_negative_prompt''],
      version = ''23.5.14'',
      opts =
        \<lparr>ad_max_models = None, ad_save_previews = None, ad_save_images_before = None,
         ad_only_seleted_scripts = None, ad_script_names = None\<rparr>,
      cmdline = \<lparr>lowvram = None, medvram = None\<rparr>,
      platform_system = ''Linux'',
      controlnet =
        \<lparr>controlnet_exists = True,
         init_controlnet = Inr True,
         update_scripts_args = (\<lambda>script_args model weight. script_args)\<rparr>,
      path_stem = posix_stem,
      repr_str = (\<lambda>s. [CHR 0x27] @ s @ [CHR 0x27]),
      repr_float = (\<lambda>r. ''<float>''),
      not_a_mapping_text = (\<lambda>v. ''argument after ** must be a mapping'')\<rparr>"

definition example_p :: "nat processing" where
  "example_p =
     \<lparr>p_prompt = ''a portrait'',
      p_negative_prompt = ''blurry'',
      p_all_prompts = [''a portrait'', ''a landscape'', ''a cat''],
      p_all_negative_prompts = [''blurry'', ''dark''],
      p_seed = 1000,
      p_subseed = 2000,
      p_all_seeds = [1000, 1001, 1002],
      p_all_subseeds = [2000, 2001, 2002],
      p_subseed_strength = 0,
      p_seed_resize_from_h = 0,
      p_seed_resize_from_w = 0,
      p_width = 512,
      p_height = 768,
      p_steps = 20,
      p_cfg_scale = 7,
      p_sampler_name = ''Euler a'',
      p_sd_model = ''v1-5-pruned'',
      p_outpath_samples = ''outputs/txt2img-images'',
      p_outpath_grids = ''outputs/txt2img-grids'',
      p_styles = [],
      p_tiling = False,
      p_extra_generation_params = [],
      p_scripts =
        \<lparr>alwayson_scripts =
           [\<lparr>filename = ''/webui/extensions/sd-dynamic-prompts/scripts/dynamic_prompting.py''\<rparr>,
            \<lparr>filename = ''/webui/extensions/wildcards/scripts/wildcards.py''\<rparr>,
            \<lparr>filename = ''/webui/extensions/adetailer/scripts/!adetailer.py''\<rparr>]\<rparr>,
      p_script_args = [],
      p_init_images = [],
      p_resize_mode = 0,
      p_denoising_strength = 0,
      p_mask = None,
      p_mask_blur = 0,
      p_inpainting_fill = 0,
      p_inpaint_full_res = False,
      p_inpaint_full_res_padding = 0,
      p_inpainting_mask_invert = 0,
      p_batch_size = 1,
      p_n_iter = 3,
      p_do_not_save_samples = False,
      p_do_not_save_grid = False,
      p_image_mask = None,
      p_idx = None,
      p_disable_adetailer = None\<rparr>"

definition example_state :: "nat state" where
  "example_state =
     \<lparr>controlnet_ext = None, ultralytics_device = [], pp_image = 7, events = []\<rparr>"

text \<open>
  The arguments of a request with the face stage and the hand stage enabled, and of one
  whose stages detect nothing: the person model, a skipped stage and a mediapipe model.
\<close>

definition example_args_in :: "pyarg list" where
  "example_args_in =
     [Scalar (PyBool True),
      Mapping [(''ad_model'', PyStr ''face_yolov8n.pt'')],
      Mapping [(''ad_model'', PyStr ''hand_yolov8n.pt'')]]"

definition quiet_args_in :: "pyarg list" where
  "quiet_args_in =
     [Scalar (PyBool True),
      Mapping [(''ad_model'', PyStr ''person_yolov8n-seg.pt'')],
      Mapping [(''ad_model'', PyStr ''None'')],
      Mapping [(''ad_model'', PyStr ''mediapipe_face_full'')]]"

text \<open>
  The same installation with the allow-list "wildcards", a stage that selects a
  conditioning model, and a parent job that has the conditioning extension among its
  always-on scripts.
\<close>

definition wildcards_env :: "nat env" where
  "wildcards_env = example_env\<lparr>opts := (opts example_env)\<lparr>ad_script_names := Some ''wildcards''\<rparr>\<rparr>"

definition controlnet_args :: ad_args where
  "controlnet_args = example_args\<lparr>ad_controlnet_model := ''control_v11p_sd15_inpaint''\<rparr>"

definition controlnet_p :: "nat processing" where
  "controlnet_p =
     example_p
       \<lparr>p_idx := Some 0,
        p_scripts :=
          \<lparr>alwayson_scripts =
             [\<lparr>filename = ''/webui/extensions/sd-dynamic-prompts/scripts/dynamic_prompting.py''\<rparr>,
              \<lparr>filename = ''/webui/extensions/sd-webui-controlnet/scripts/controlnet.py''\<rparr>,
              \<lparr>filename = ''/webui/extensions/wildcards/scripts/wildcards.py''\<rparr>]\<rparr>\<rparr>"

section \<open>Indexing and selection\<close>

lemma subscript_in_range:
  "0 \<le> i \<Longrightarrow> i < int (length xs) \<Longrightarrow> subscript xs i = Inr (xs ! nat i)"
  by (simp add: subscript_def)

lemma subscript_wrapped:
  "xs \<noteq> [] \<Longrightarrow> subscript xs (i mod int (length xs)) = Inr (xs ! nat (i mod int (length xs)))"
  by (simp add: subscript_def)

lemma mod_shift_negative:
  fixes i n :: int
  assumes "i < 0" and "- n \<le> i"
  shows "i mod n = n + i"
proof -
  have "(i + n) mod n = i mod n" by simp
  moreover from assms have "(i + n) mod n = i + n"
    by (intro mod_pos_pos_trivial) auto
  ultimately show ?thesis by simp
qed

lemma subscript_below_length:
  assumes "subscript xs i = Inr v" and "i < int (length xs)"
  shows "v = xs ! nat (i mod int (length xs))"
proof (cases "0 \<le> i")
  case True
  with assms show ?thesis by (simp add: subscript_def)
next
  case False
  with assms have low: "- int (length xs) \<le> i" and v: "v = xs ! nat (int (length xs) + i)"
    by (auto simp: subscript_def split: if_splits)
  from False low have "i mod int (length xs) = int (length xs) + i"
    by (intro mod_shift_negative) auto
  with v show ?thesis by simp
qed

lemma get_prompt_result:
  assumes "get_prompt p args = Inr (pr, npr)" and "p_idx p = Some i"
  shows "pr = (if ad_prompt args \<noteq> [] then ad_prompt args
               else if p_all_prompts p = [] then p_prompt p
               else p_all_prompts p ! nat (i mod int (length (p_all_prompts p))))"
    and "npr = (if ad_negative_prompt args \<noteq> [] then ad_negative_prompt args
                else if p_all_negative_prompts p = [] then p_negative_prompt p
                else p_all_negative_prompts p !
                       nat (i mod int (length (p_all_negative_prompts p))))"
  using assms
  by (auto simp: get_prompt_def subscript_wrapped split: sum.splits if_splits
           dest: subscript_below_length)

lemma get_seed_result:
  assumes "get_seed p = Inr (s, t)" and "p_idx p = Some i"
  shows "s = (if p_all_seeds p = [] then p_seed p
              else p_all_seeds p ! nat (i mod int (length (p_all_seeds p))))"
    and "t = (if p_all_subseeds p = [] then p_subseed p
              else p_all_subseeds p ! nat (i mod int (length (p_all_subseeds p))))"
  using assms
  by (auto simp: get_seed_def subscript_wrapped split: sum.splits if_splits
           dest: subscript_below_length)

lemma get_prompt_total:
  assumes "p_idx p = Some i" and "0 \<le> i"
  shows "\<exists>pr npr. get_prompt p args = Inr (pr, npr)"
  using assms
  by (auto simp: get_prompt_def subscript_wrapped subscript_in_range split: sum.splits)

lemma get_seed_total:
  assumes "p_idx p = Some i" and "0 \<le> i"
  shows "\<exists>s t. get_seed p = Inr (s, t)"
  using assms
  by (auto simp: get_seed_def subscript_wrapped subscript_in_range split: sum.splits)

section \<open>Building a job\<close>

lemma engine_calls_Nil [simp]: "engine_calls [] = []"
  by (simp add: engine_calls_def)

lemma printed_Nil [simp]: "printed [] = []"
  by (simp add: printed_def)

lemma engine_calls_append: "engine_calls (xs @ ys) = engine_calls xs @ engine_calls ys"
  by (simp add: engine_calls_def)

lemma printed_append: "printed (xs @ ys) = printed xs @ printed ys"
  by (simp add: printed_def)

lemma init_controlnet_ext_frame:
  "\<exists>new. events (init_controlnet_ext env st) = events st @ new
          \<and> engine_calls new = [] \<and> printed new = []
          \<and> pp_image (init_controlnet_ext env st) = pp_image st
          \<and> ultralytics_device (init_controlnet_ext env st) = ultralytics_device st"
  by (auto simp: init_controlnet_ext_def emit_def engine_calls_def printed_def
           split: sum.splits)

lemma update_controlnet_args_frame:
  assumes "update_controlnet_args env j args st = (j', st')"
  shows "j' = j\<lparr>p_script_args := p_script_args j'\<rparr>"
    and "\<exists>new. events st' = events st @ new \<and> engine_calls new = [] \<and> printed new = []"
    and "pp_image st' = pp_image st"
    and "ultralytics_device st' = ultralytics_device st"
  using assms init_controlnet_ext_frame[of env st]
  by (auto simp: update_controlnet_args_def Let_def split: if_splits)

lemma update_controlnet_args_job:
  assumes "update_controlnet_args env j args st = (j', st')"
  shows "\<exists>sa. j' = j\<lparr>p_script_args := sa\<rparr>"
  using update_controlnet_args_frame(1)[OF assms] by (rule exI)

lemma get_i2i_p_selected:
  assumes "get_i2i_p env p args img st = (st', Inr job)"
  shows "\<exists>pr npr s t. get_prompt p args = Inr (pr, npr) \<and> get_seed p = Inr (s, t)
           \<and> p_prompt job = pr \<and> p_negative_prompt job = npr
           \<and> p_seed job = s \<and> p_subseed job = t"
  using assms
  by (auto simp: get_i2i_p_def Let_def split: sum.splits prod.splits if_splits
           dest!: update_controlnet_args_job)

lemma get_i2i_p_fields:
  assumes "get_i2i_p env p args img st = (st', Inr job)"
  shows "p_sampler_name job =
           (if p_sampler_name p \<in> set [''PLMS'', ''UniPC''] then ''Euler'' else p_sampler_name p)"
    and "p_scripts job = script_filter env p args"
    and "p_disable_adetailer job = Some True"
    and "p_init_images job = [img]"
    and "p_image_mask job = None"
    and "p_denoising_strength job = ad_denoising_strength args"
  using assms
  by (auto simp: get_i2i_p_def Let_def split: sum.splits prod.splits if_splits
           dest!: update_controlnet_args_job)

lemma get_i2i_p_frame:
  assumes "get_i2i_p env p args img st = (st', r)"
  shows "\<exists>new. events st' = events st @ new \<and> engine_calls new = [] \<and> printed new = []"
    and "pp_image st' = pp_image st"
    and "ultralytics_device st' = ultralytics_device st"
  using assms
  by (auto simp: get_i2i_p_def Let_def split: sum.splits prod.splits if_splits
           dest: update_controlnet_args_frame)

lemma get_i2i_p_total:
  assumes "p_idx p = Some i" and "0 \<le> i"
  shows "\<exists>st' job. get_i2i_p env p args img st = (st', Inr job)"
proof -
  from get_prompt_total[OF assms] obtain pr npr where "get_prompt p args = Inr (pr, npr)"
    by blast
  moreover from get_seed_total[OF assms] obtain s t where "get_seed p = Inr (s, t)"
    by blast
  ultimately show ?thesis
    by (auto simp: get_i2i_p_def Let_def split: prod.splits)
qed

section \<open>The regeneration loop\<close>

lemma new_events_append: "events st' = events st @ new \<Longrightarrow> new_events st st' = new"
  by (simp add: new_events_def)

lemma subscript_first:
  "subscript xs 0 = (case xs of [] \<Rightarrow> Inl (IndexError ''list index out of range'') | x # rest \<Rightarrow> Inr x)"
  by (cases xs) (simp_all add: subscript_def)

lemma regenerate_trace:
  assumes "regenerate env i2i S T ms j p2 pr st = (st', r)"
  shows "\<exists>js. events st' = events st @ map ProcessImages js
           \<and> pp_image st' = pp_image st
           \<and> ultralytics_device st' = ultralytics_device st
           \<and> length js \<le> length ms
           \<and> (\<forall>k<length js.
                 js ! k = (if k = 0 then p2
                           else i2i\<lparr>p_init_images := p_init_images (js ! k),
                                    p_seed := S + j + int k,
                                    p_subseed := T + j + int k\<rparr>)
                            \<lparr>p_image_mask := Some (ms ! k)\<rparr>)
           \<and> (\<forall>img. p_init_images p2 = [img] \<longrightarrow> chained env img js)
           \<and> (case r of
                 Inr x \<Rightarrow> length js = length ms
                         \<and> (if ms = [] then x = pr
                            else \<exists>out others. process_images env (last js) = Inr (out # others)
                                   \<and> x = Some (out # others))
               | Inl e \<Rightarrow> js \<noteq> [] \<and> (\<forall>out others. process_images env (last js) \<noteq> Inr (out # others)))"
  using assms
proof (induction ms arbitrary: j p2 pr st)
  case Nil
  then show ?case by (intro exI[of _ "[]"]) auto
next
  case (Cons m rest)
  let ?job = "p2\<lparr>p_image_mask := Some m\<rparr>"
  let ?st1 = "emit (ProcessImages ?job) st"
  have st1: "events ?st1 = events st @ [ProcessImages ?job]"
    "pp_image ?st1 = pp_image st" "ultralytics_device ?st1 = ultralytics_device st"
    by (simp_all add: emit_def)
  show ?case
  proof (cases "\<exists>out others. process_images env ?job = Inr (out # others)")
    case False
    then have "st' = ?st1" and "\<exists>e. r = Inl e"
      using Cons.prems
      by (auto simp: Let_def subscript_first split: sum.splits list.splits)
    with False st1 show ?thesis
      by (intro exI[of _ "[?job]"]) auto
  next
    case True
    then obtain out others where ok: "process_images env ?job = Inr (out # others)"
      by blast
    let ?p2' = "i2i\<lparr>p_init_images := [out], p_seed := S + j + 1, p_subseed := T + j + 1\<rparr>"
    from Cons.prems ok have rec: "regenerate env i2i S T rest (j + 1) ?p2' (Some (out # others)) ?st1 = (st', r)"
      by (simp add: Let_def subscript_first)
    from Cons.IH[OF rec] obtain js where
      ev: "events st' = events ?st1 @ map ProcessImages js"
      and fr: "pp_image st' = pp_image ?st1" "ultralytics_device st' = ultralytics_device ?st1"
      and len: "length js \<le> length rest"
      and at: "\<forall>k<length js.
                 js ! k = (if k = 0 then ?p2'
                           else i2i\<lparr>p_init_images := p_init_images (js ! k),
                                    p_seed := S + (j + 1) + int k,
                                    p_subseed := T + (j + 1) + int k\<rparr>)
                            \<lparr>p_image_mask := Some (rest ! k)\<rparr>"
      and ch: "chained env out js"
      and res: "(case r of
                 Inr x \<Rightarrow> length js = length rest
                         \<and> (if rest = [] then x = Some (out # others)
                            else \<exists>out others. process_images env (last js) = Inr (out # others)
                                   \<and> x = Some (out # others))
               | Inl e \<Rightarrow> js \<noteq> [] \<and> (\<forall>out others. process_images env (last js) \<noteq> Inr (out # others)))"
      by auto
    have a: "events st' = events st @ map ProcessImages (?job # js)"
      using ev st1 by simp
    have b: "pp_image st' = pp_image st" "ultralytics_device st' = ultralytics_device st"
      using fr st1 by simp_all
    have c: "length (?job # js) \<le> length (m # rest)"
      using len by simp
    have d: "\<forall>k<length (?job # js).
                 (?job # js) ! k = (if k = 0 then p2
                           else i2i\<lparr>p_init_images := p_init_images ((?job # js) ! k),
                                    p_seed := S + j + int k,
                                    p_subseed := T + j + int k\<rparr>)
                            \<lparr>p_image_mask := Some ((m # rest) ! k)\<rparr>"
    proof (intro allI impI)
      fix k assume k: "k < length (?job # js)"
      show "(?job # js) ! k = (if k = 0 then p2
                           else i2i\<lparr>p_init_images := p_init_images ((?job # js) ! k),
                                    p_seed := S + j + int k,
                                    p_subseed := T + j + int k\<rparr>)
                            \<lparr>p_image_mask := Some ((m # rest) ! k)\<rparr>"
      proof (cases k)
        case 0
        then show ?thesis by simp
      next
        case (Suc k')
        with k have k': "k' < length js" by simp
        from at k' have e: "js ! k' = (if k' = 0 then ?p2'
                           else i2i\<lparr>p_init_images := p_init_images (js ! k'),
                                    p_seed := S + (j + 1) + int k',
                                    p_subseed := T + (j + 1) + int k'\<rparr>)
                            \<lparr>p_image_mask := Some (rest ! k')\<rparr>"
          by blast
        show ?thesis
        proof (cases "k' = 0")
          case True
          with e have "js ! k' = ?p2'\<lparr>p_image_mask := Some (rest ! k')\<rparr>" by simp
          then have "js ! k' = i2i\<lparr>p_init_images := p_init_images (js ! k'),
                                    p_seed := S + j + int k,
                                    p_subseed := T + j + int k\<rparr>\<lparr>p_image_mask := Some (rest ! k')\<rparr>"
            using Suc True by simp
          then show ?thesis using Suc by simp
        next
          case False
          with e have "js ! k' = i2i\<lparr>p_init_images := p_init_images (js ! k'),
                                    p_seed := S + j + int k,
                                    p_subseed := T + j + int k\<rparr>\<lparr>p_image_mask := Some (rest ! k')\<rparr>"
            using Suc by (simp add: algebra_simps)
          then show ?thesis using Suc by simp
        qed
      qed
    qed
    have e: "\<forall>img. p_init_images p2 = [img] \<longrightarrow> chained env img (?job # js)"
      using ch ok by (auto split: list.splits)
    have f: "(case r of
                 Inr x \<Rightarrow> length (?job # js) = length (m # rest)
                         \<and> (if m # rest = [] then x = pr
                            else \<exists>out others. process_images env (last (?job # js)) = Inr (out # others)
                                   \<and> x = Some (out # others))
               | Inl e \<Rightarrow> ?job # js \<noteq> [] \<and> (\<forall>out others. process_images env (last (?job # js)) \<noteq> Inr (out # others)))"
      using res ok by (auto split: sum.splits if_splits)
    from a b c d e f show ?thesis
      by (intro exI[of _ "?job # js"]) blast
  qed
qed

section \<open>One stage\<close>

lemma predict_frame:
  assumes "predict env args st = (st', r)"
  shows "\<exists>new. events st' = events st @ new \<and> engine_calls new = [] \<and> printed new = []"
    and "pp_image st' = pp_image st"
    and "ultralytics_device st' = ultralytics_device st"
  using assms
  by (auto simp: predict_def Let_def emit_def engine_calls_def printed_def
           split: if_splits sum.splits)

lemma predict_result:
  assumes "pp_image s = pp_image t" and "ultralytics_device s = ultralytics_device t"
  shows "snd (predict env args s) = snd (predict env args t)"
  using assms by (simp add: predict_def Let_def split: sum.splits)

lemma save_image_frame:
  assumes "save_image env p im condition sfx st = (st', r)"
  shows "\<exists>new. events st' = events st @ new \<and> engine_calls new = [] \<and> printed new = []"
    and "pp_image st' = pp_image st"
    and "ultralytics_device st' = ultralytics_device st"
  using assms
  by (auto simp: save_image_def emit_def engine_calls_def printed_def
           split: option.splits sum.splits prod.splits if_splits)

lemma save_image_total:
  assumes "p_idx p = Some i" and "0 \<le> i"
  shows "\<exists>st'. save_image env p im condition sfx st = (st', Inr ())"
proof -
  from get_seed_total[OF assms] obtain s t where "get_seed p = Inr (s, t)"
    by blast
  with assms show ?thesis
    by (auto simp: save_image_def subscript_in_range)
qed


lemma private_postprocess_image_trace:
  assumes run: "private_postprocess_image env p args n st = (st', r)"
  shows "\<exists>pre js.
           events st' = events st @ pre @ map ProcessImages js
         \<and> engine_calls pre = []
         \<and> ultralytics_device st' = ultralytics_device st
         \<and> chained env (pp_image st) js
         \<and> (js \<noteq> [] \<longrightarrow>
              (\<exists>i2i S T pred.
                 snd (get_i2i_p env p args (pp_image st) st) = Inr i2i
               \<and> get_seed p = Inr (S, T)
               \<and> snd (predict env args st) = Inr pred
               \<and> length js \<le> length (mask_preprocess env (pred_masks pred))
               \<and> (\<forall>k<length js.
                     js ! k = (if k = 0 then i2i
                               else i2i\<lparr>p_init_images := p_init_images (js ! k),
                                        p_seed := S + int k,
                                        p_subseed := T + int k\<rparr>)
                                \<lparr>p_image_mask := Some (mask_preprocess env (pred_masks pred) ! k)\<rparr>)))
         \<and> (case r of
               Inr b \<Rightarrow>
                 (\<exists>pred. snd (predict env args st) = Inr pred
                        \<and> length js = length (mask_preprocess env (pred_masks pred)))
                 \<and> (if b then js \<noteq> []
                            \<and> (\<exists>out others. process_images env (last js) = Inr (out # others)
                                  \<and> pp_image st' = out)
                     else js = [] \<and> pp_image st' = pp_image st
                          \<and> (\<exists>i. p_idx p = Some i \<and> printed pre = [nothing_detected i n]))
             | Inl e \<Rightarrow>
                 pp_image st' = pp_image st
                 \<and> (js \<noteq> [] \<longrightarrow>
                      (\<forall>out others. process_images env (last js) \<noteq> Inr (out # others)))
                 \<and> (js = [] \<longrightarrow>
                      \<not> (\<exists>i pred. p_idx p = Some i \<and> 0 \<le> i
                                  \<and> snd (predict env args st) = Inr pred)))"
proof (cases "p_idx p")
  case None
  with run have "st' = st" "\<exists>e. r = Inl e"
    by (auto simp: private_postprocess_image_def)
  with None show ?thesis
    by (intro exI[of _ "[]"]) auto
next
  case (Some i)
  obtain st1 r1 where g: "get_i2i_p env p args (pp_image st) st = (st1, r1)"
    by (cases "get_i2i_p env p args (pp_image st) st")
  from get_i2i_p_frame[OF g] obtain n1 where
    n1: "events st1 = events st @ n1" "engine_calls n1 = []" "printed n1 = []"
    and f1: "pp_image st1 = pp_image st" "ultralytics_device st1 = ultralytics_device st"
    by blast
  show ?thesis
  proof (cases r1)
    case (Inl e)
    with run Some g have "st' = st1" "r = Inl e"
      by (auto simp: private_postprocess_image_def)
    moreover from Inl g get_i2i_p_total[of p i env args "pp_image st" st] Some
    have "\<not> 0 \<le> i" by auto
    ultimately show ?thesis
      using n1 f1 Some by (intro exI[of _ n1] exI[of _ "[]"]) auto
  next
    case (Inr i2i)
    with g have gi: "get_i2i_p env p args (pp_image st) st = (st1, Inr i2i)"
      by simp
    from get_i2i_p_selected[OF gi] obtain S T where
      sd: "get_seed p = Inr (S, T)" and si: "p_seed i2i = S" "p_subseed i2i = T"
      by blast
    have ini: "p_init_images i2i = [pp_image st]"
      using get_i2i_p_fields(4)[OF gi] .
    obtain st2 r2 where pd: "predict env args st1 = (st2, r2)"
      by (cases "predict env args st1")
    from predict_frame[OF pd] obtain n2 where
      n2: "events st2 = events st1 @ n2" "engine_calls n2 = []" "printed n2 = []"
      and f2': "pp_image st2 = pp_image st1" "ultralytics_device st2 = ultralytics_device st1"
      by blast
    have pr: "snd (predict env args st) = r2"
      using predict_result[of st1 st env args] f1 pd by simp
    show ?thesis
    proof (cases r2)
      case (Inl e)
      with run Some gi sd pd have "st' = st2" "r = Inl e"
        by (auto simp: private_postprocess_image_def)
      then show ?thesis
        using n1 n2 f1 f2' pr Inl
        by (intro exI[of _ "n1 @ n2"] exI[of _ "[]"]) (auto simp: engine_calls_append)
    next
      case (Inr pred)
      let ?masks = "mask_preprocess env (pred_masks pred)"
      show ?thesis
      proof (cases "?masks = []")
        case True
        let ?msg = "Print (nothing_detected i n)"
        from run Some gi sd pd Inr True have "st' = emit ?msg st2" "r = Inr False"
          by (auto simp: private_postprocess_image_def Let_def)
        then show ?thesis
          using n1 n2 f1 f2' pr Inr True Some
          by (intro exI[of _ "n1 @ n2 @ [?msg]"] exI[of _ "[]"])
             (auto simp: engine_calls_append printed_append emit_def engine_calls_def printed_def)
      next
        case False
        obtain st3 r3 where sv: "save_image env p (pred_preview pred) ''ad_save_previews''
                (''-ad-preview'' @ suffix n ''-'') st2 = (st3, r3)"
          by (cases "save_image env p (pred_preview pred) ''ad_save_previews''
                (''-ad-preview'' @ suffix n ''-'') st2")
        from save_image_frame[OF sv] obtain n3 where
          n3: "events st3 = events st2 @ n3" "engine_calls n3 = []"
          and f3': "pp_image st3 = pp_image st2" "ultralytics_device st3 = ultralytics_device st2"
          by blast
        show ?thesis
        proof (cases r3)
          case (Inl e)
          with run Some gi sd pd Inr False sv have "st' = st3" "r = Inl e"
            by (auto simp: private_postprocess_image_def Let_def)
          moreover from Inl sv save_image_total[of p i env "pred_preview pred"
              "''ad_save_previews''" "''-ad-preview'' @ suffix n ''-''" st2] Some
          have "\<not> 0 \<le> i" by auto
          ultimately show ?thesis
            using n1 n2 n3 f1 f2' f3' Some
            by (intro exI[of _ "n1 @ n2 @ n3"] exI[of _ "[]"]) (auto simp: engine_calls_append)
        next
          case (Inr u)
          let ?st4 = "(if startswith (lower (ad_model args)) ''mediapipe''
                    then emit (Print (''mediapipe: '' @ str_int (int (length ?masks)) @ '' detected.'')) st3
                    else st3)"
          obtain n4 where n4: "events ?st4 = events st3 @ n4" "engine_calls n4 = []"
            and f4: "pp_image ?st4 = pp_image st3" "ultralytics_device ?st4 = ultralytics_device st3"
            by (cases "startswith (lower (ad_model args)) ''mediapipe''")
               (auto simp: emit_def engine_calls_def)
          obtain st5 r5 where rg: "regenerate env i2i S T ?masks 0 i2i None ?st4 = (st5, r5)"
            by (cases "regenerate env i2i S T ?masks 0 i2i None ?st4")
          from regenerate_trace[OF rg] ini obtain js where
            ev: "events st5 = events ?st4 @ map ProcessImages js"
            and f5': "pp_image st5 = pp_image ?st4" "ultralytics_device st5 = ultralytics_device ?st4"
            and len: "length js \<le> length ?masks"
            and at: "\<forall>k<length js.
                 js ! k = (if k = 0 then i2i
                           else i2i\<lparr>p_init_images := p_init_images (js ! k),
                                    p_seed := S + 0 + int k,
                                    p_subseed := T + 0 + int k\<rparr>)
                            \<lparr>p_image_mask := Some (?masks ! k)\<rparr>"
            and ch: "chained env (pp_image st) js"
            and res: "(case r5 of
                 Inr x \<Rightarrow> length js = length ?masks
                         \<and> (if ?masks = [] then x = None
                            else \<exists>out others. process_images env (last js) = Inr (out # others)
                                   \<and> x = Some (out # others))
               | Inl e \<Rightarrow> js \<noteq> [] \<and> (\<forall>out others. process_images env (last js) \<noteq> Inr (out # others)))"
            by auto
          have evs: "events st5 = events st @ (n1 @ n2 @ n3 @ n4) @ map ProcessImages js"
            using ev n1 n2 n3 n4 by simp
          have quiet: "engine_calls (n1 @ n2 @ n3 @ n4) = []"
            using n1 n2 n3 n4 by (simp add: engine_calls_append)
          have dev: "ultralytics_device st5 = ultralytics_device st"
            using f5' f4 f3' f2' f1 by simp
          have img: "pp_image st5 = pp_image st"
            using f5' f4 f3' f2' f1 by simp
          have jobs: "js \<noteq> [] \<longrightarrow>
              (\<exists>i2i S T pred.
                 snd (get_i2i_p env p args (pp_image st) st) = Inr i2i
               \<and> get_seed p = Inr (S, T)
               \<and> snd (predict env args st) = Inr pred
               \<and> length js \<le> length (mask_preprocess env (pred_masks pred))
               \<and> (\<forall>k<length js.
                     js ! k = (if k = 0 then i2i
                               else i2i\<lparr>p_init_images := p_init_images (js ! k),
                                        p_seed := S + int k,
                                        p_subseed := T + int k\<rparr>)
                                \<lparr>p_image_mask := Some (mask_preprocess env (pred_masks pred) ! k)\<rparr>))"
            using gi sd pr \<open>r2 = Inr pred\<close> len at by auto
          have step: "(st', r) =
              (case r5 of
                 Inl e \<Rightarrow> (st5, Inl e)
               | Inr None \<Rightarrow> (st5, Inr False)
               | Inr (Some images) \<Rightarrow>
                   (case subscript images 0 of
                      Inl e \<Rightarrow> (st5, Inl e)
                    | Inr img \<Rightarrow> (st5\<lparr>pp_image := img\<rparr>, Inr True)))"
            using run Some gi sd pd \<open>r2 = Inr pred\<close> False sv Inr rg
            by (simp add: private_postprocess_image_def Let_def split: sum.splits option.splits)
          show ?thesis
          proof (cases r5)
            case (Inl e)
            with step have "st' = st5" "r = Inl e" by simp_all
            with res Inl evs quiet dev img ch jobs show ?thesis
              by (intro exI[of _ "n1 @ n2 @ n3 @ n4"] exI[of _ js]) auto
          next
            case (Inr x)
            with res False obtain out others where
              ok: "process_images env (last js) = Inr (out # others)" "x = Some (out # others)"
              and full: "length js = length ?masks"
              by auto
            with step Inr have fin: "st' = st5\<lparr>pp_image := out\<rparr>" "r = Inr True"
              by (simp_all add: subscript_first)
            from full False have ne: "js \<noteq> []" by auto
            from fin evs quiet dev ch jobs ok full ne pr \<open>r2 = Inr pred\<close> show ?thesis
              by (intro exI[of _ "n1 @ n2 @ n3 @ n4"] exI[of _ js]) auto
          qed
        qed
      qed
    qed
  qed
qed

lemma engine_calls_map_ProcessImages: "engine_calls (map ProcessImages js) = js"
  by (induction js) (simp_all add: engine_calls_def)

lemma private_postprocess_image_jobs:
  assumes "private_postprocess_image env p args n st = (st', r)"
    and "events st' = events st @ pre @ map ProcessImages js"
    and "engine_calls pre = []"
  shows "engine_calls (new_events st st') = js"
  using assms(2,3)
  by (simp add: new_events_def engine_calls_append engine_calls_map_ProcessImages)

lemma stems_example:
  "posix_stem ''/webui/extensions/sd-dynamic-prompts/scripts/dynamic_prompting.py''
     = ''dynamic_prompting''"
  "posix_stem ''/webui/extensions/wildcards/scripts/wildcards.py'' = ''wildcards''"
  "posix_stem ''/webui/extensions/adetailer/scripts/!adetailer.py'' = ''!adetailer''"
  "posix_stem ''/webui/extensions/sd-webui-controlnet/scripts/controlnet.py'' = ''controlnet''"
  by (simp_all add: posix_stem_def)

lemma is_mediapipe_example:
  "startswith (lower ''face_yolov8n.pt'') ''mediapipe'' = False"
  "startswith (lower ''hand_yolov8n.pt'') ''mediapipe'' = False"
  "startswith (lower ''person_yolov8n-seg.pt'') ''mediapipe'' = False"
  "startswith (lower ''nope.pt'') ''mediapipe'' = False"
  "startswith (lower ''mediapipe_face_full'') ''mediapipe'' = True"
  by (simp_all add: startswith_def lower_def lower_char_def)

lemma default_script_names:
  "set (concat (map (\<lambda>script_name. [script_name, strip script_name])
     (split_comma ''dynamic_prompting,dynamic_thresholding,wildcards,wildcard_recursive'')))
   = {''dynamic_prompting'', ''dynamic_thresholding'', ''wildcards'', ''wildcard_recursive''}"
  by (simp add: strip_def is_space_def insert_commute)

lemma strip_wildcards: "strip ''wildcards'' = ''wildcards''"
  by (simp add: strip_def is_space_def)

lemma wildcards_script_names:
  "set (concat (map (\<lambda>script_name. [script_name, strip script_name])
     (split_comma ''wildcards''))) = {''wildcards''}"
  by (simp add: strip_def is_space_def)

lemmas stage_defs =
  private_postprocess_image_def get_i2i_p_def get_prompt_def get_seed_def subscript_def
  get_width_height_def get_steps_def get_cfg_scale_def script_filter_def predict_def
  get_ad_model_def save_image_def opts_get_def getattr_flag_def emit_def
  update_controlnet_args_def init_controlnet_ext_def Let_def
  stems_example is_mediapipe_example default_script_names wildcards_script_names
  strip_wildcards

lemmas example_defs = example_env_def example_p_def example_state_def example_args_def

lemma length_two: "length xs = 2 \<Longrightarrow> xs = [xs ! 0, xs ! 1]"
  by (cases xs; cases "tl xs") auto

section \<open>The marker on every engine call\<close>

lemma private_postprocess_image_marker:
  assumes run: "private_postprocess_image env p args n st = (st', r)"
  shows "\<exists>new. events st' = events st @ new
           \<and> (\<forall>job \<in> set (engine_calls new). p_disable_adetailer job = Some True)"
proof -
  from private_postprocess_image_trace[OF run] obtain pre js where
    ev: "events st' = events st @ pre @ map ProcessImages js"
    and quiet: "engine_calls pre = []"
    and built: "js \<noteq> [] \<longrightarrow>
              (\<exists>i2i S T pred.
                 snd (get_i2i_p env p args (pp_image st) st) = Inr i2i
               \<and> get_seed p = Inr (S, T)
               \<and> snd (predict env args st) = Inr pred
               \<and> length js \<le> length (mask_preprocess env (pred_masks pred))
               \<and> (\<forall>k<length js.
                     js ! k = (if k = 0 then i2i
                               else i2i\<lparr>p_init_images := p_init_images (js ! k),
                                        p_seed := S + int k,
                                        p_subseed := T + int k\<rparr>)
                                \<lparr>p_image_mask := Some (mask_preprocess env (pred_masks pred) ! k)\<rparr>))"
    by blast
  have "p_disable_adetailer job = Some True" if "job \<in> set js" for job
  proof -
    from that obtain k where k: "k < length js" and jk: "job = js ! k"
      by (auto simp: in_set_conv_nth)
    then have "js \<noteq> []" by auto
    with built obtain i2i S T pred where
      b: "snd (get_i2i_p env p args (pp_image st) st) = Inr i2i"
      and "get_seed p = Inr (S, T)"
      and "snd (predict env args st) = Inr pred"
      and "length js \<le> length (mask_preprocess env (pred_masks pred))"
      and e: "\<forall>k<length js.
                     js ! k = (if k = 0 then i2i
                               else i2i\<lparr>p_init_images := p_init_images (js ! k),
                                        p_seed := S + int k,
                                        p_subseed := T + int k\<rparr>)
                                \<lparr>p_image_mask := Some (mask_preprocess env (pred_masks pred) ! k)\<rparr>"
      by blast
    from b obtain st1 where g: "get_i2i_p env p args (pp_image st) st = (st1, Inr i2i)"
      by (cases "get_i2i_p env p args (pp_image st) st") auto
    have m: "p_disable_adetailer i2i = Some True"
      using get_i2i_p_fields(3)[OF g] .
    define x where
      "x = (if k = 0 then i2i
            else i2i\<lparr>p_init_images := p_init_images (js ! k),
                     p_seed := S + int k,
                     p_subseed := T + int k\<rparr>)
             \<lparr>p_image_mask := Some (mask_preprocess env (pred_masks pred) ! k)\<rparr>"
    from e k have eq: "js ! k = x"
      unfolding x_def by blast
    have "p_disable_adetailer x = Some True"
      unfolding x_def using m by simp
    with eq jk show ?thesis by simp
  qed
  then have "\<forall>job \<in> set (engine_calls (pre @ map ProcessImages js)). p_disable_adetailer job = Some True"
    using quiet by (simp add: engine_calls_append engine_calls_map_ProcessImages)
  with ev show ?thesis by blast
qed

lemma stages_marker:
  assumes "stages env p n arg_list b st = (st', r)"
  shows "\<exists>new. events st' = events st @ new
           \<and> (\<forall>job \<in> set (engine_calls new). p_disable_adetailer job = Some True)"
  using assms
proof (induction arg_list arbitrary: n b st)
  case Nil
  then show ?case by simp
next
  case (Cons args rest)
  show ?case
  proof (cases "ad_model args = ''None''")
    case True
    with Cons.prems have "stages env p (n + 1) rest b st = (st', r)" by simp
    from Cons.IH[OF this] show ?thesis .
  next
    case False
    obtain st1 r1 where s1: "private_postprocess_image env p args n st = (st1, r1)"
      by (cases "private_postprocess_image env p args n st")
    from private_postprocess_image_marker[OF s1] obtain new1 where
      n1: "events st1 = events st @ new1"
      "\<forall>job \<in> set (engine_calls new1). p_disable_adetailer job = Some True"
      by blast
    show ?thesis
    proof (cases r1)
      case (Inl e)
      with Cons.prems False s1 have "st' = st1" by simp
      with n1 show ?thesis by blast
    next
      case (Inr b1)
      with Cons.prems False s1 have "stages env p (n + 1) rest (b \<or> b1) st1 = (st', r)"
        by simp
      from Cons.IH[OF this] obtain new2 where
        n2: "events st' = events st1 @ new2"
        "\<forall>job \<in> set (engine_calls new2). p_disable_adetailer job = Some True"
        by blast
      from n1 n2 have "events st' = events st @ (new1 @ new2)"
        and "\<forall>job \<in> set (engine_calls (new1 @ new2)). p_disable_adetailer job = Some True"
        by (auto simp: engine_calls_append)
      then show ?thesis by blast
    qed
  qed
qed

lemma postprocess_image_marker:
  assumes "postprocess_image env p args_in st = (p', st', r)"
  shows "\<exists>new. events st' = events st @ new
           \<and> (\<forall>job \<in> set (engine_calls new). p_disable_adetailer job = Some True)"
proof (cases "getattr_flag (p_disable_adetailer p)")
  case True
  with assms have "st' = st" by (simp add: postprocess_image_def)
  then show ?thesis by simp
next
  case off: False
  show ?thesis
  proof (cases "is_ad_enabled env args_in = Inr True")
    case False
    with assms off have "st' = st"
      by (auto simp: postprocess_image_def split: sum.splits if_splits)
    then show ?thesis by simp
  next
    case on: True
    let ?p1 = "p\<lparr>p_idx := Some ((case p_idx p of None \<Rightarrow> - 1 | Some k \<Rightarrow> k) + 1)\<rparr>"
    show ?thesis
    proof (cases "get_args env args_in")
      case (Inl e)
      with assms off on have "st' = st"
        by (simp add: postprocess_image_def Let_def)
      then show ?thesis by simp
    next
      case (Inr arg_list)
      obtain st1 r1 where sg: "stages env ?p1 0 arg_list False st = (st1, r1)"
        by (cases "stages env ?p1 0 arg_list False st")
      from stages_marker[OF sg] obtain new1 where
        n1: "events st1 = events st @ new1"
        "\<forall>job \<in> set (engine_calls new1). p_disable_adetailer job = Some True"
        by blast
      show ?thesis
      proof (cases r1)
        case (Inl e)
        with assms off on Inr sg have "st' = st1"
          by (simp add: postprocess_image_def Let_def)
        with n1 show ?thesis by blast
      next
        case ok: (Inr is_processed)
        obtain st2 r2 where sv:
          "(if is_processed
            then save_image env ?p1 (Some (pp_image st)) ''ad_save_images_before'' ''-ad-before'' st1
            else (st1, Inr ())) = (st2, r2)"
          by (cases "(if is_processed
            then save_image env ?p1 (Some (pp_image st)) ''ad_save_images_before'' ''-ad-before'' st1
            else (st1, Inr ()))")
        then obtain new2 where n2: "events st2 = events st1 @ new2" "engine_calls new2 = []"
          using save_image_frame(1)[of env ?p1 "Some (pp_image st)" "''ad_save_images_before''"
                  "''-ad-before''" st1 st2 r2]
          by (cases is_processed) auto
        from assms off on Inr sg ok sv
        have "st' = st2 \<or> st' = emit WriteParamsTxt st2"
          by (auto simp: postprocess_image_def Let_def split: sum.splits if_splits)
        then obtain new3 where n3: "events st' = events st2 @ new3" "engine_calls new3 = []"
          by (auto simp: emit_def engine_calls_def)
        from n1 n2 n3 have "events st' = events st @ (new1 @ new2 @ new3)"
          and "\<forall>job \<in> set (engine_calls (new1 @ new2 @ new3)). p_disable_adetailer job = Some True"
          by (auto simp: engine_calls_append)
        then show ?thesis by blast
      qed
    qed
  qed
qed

section \<open>Seeds along a mask sequence\<close>

text \<open>
  C1: in one stage, with \<open>(S, T)\<close> the seed and subseed \<^verbatim>\<open>get_seed\<close> selects for
  the current image and \<open>masks\<close> the masks detection leaves, the jobs handed to the engine
  carry, in call order, the seeds \<open>S, S + 1, ...\<close> and the subseeds \<open>T, T + 1, ...\<close>,
  each one more than the job before; there are never more jobs than masks, exactly as
  many when the stage returns, and the stage does return when the image index is not
  negative and every engine call it made returned an image.
\<close>

theorem private_postprocess_image_seeds:
  assumes seeds: "get_seed p = Inr (S, T)"
    and detect: "snd (predict env args st) = Inr pred"
    and masks: "mask_preprocess env (pred_masks pred) = masks"
    and run: "private_postprocess_image env p args n st = (st', r)"
    and jobs: "jobs = engine_calls (new_events st st')"
  shows "length jobs \<le> length masks
       \<and> (\<forall>k<length jobs. p_seed (jobs ! k) = S + int k \<and> p_subseed (jobs ! k) = T + int k)
       \<and> (\<forall>k. Suc k < length jobs \<longrightarrow>
             p_seed (jobs ! Suc k) = p_seed (jobs ! k) + 1
           \<and> p_subseed (jobs ! Suc k) = p_subseed (jobs ! k) + 1)
       \<and> ((\<exists>b. r = Inr b) \<longrightarrow> length jobs = length masks)
       \<and> ((\<exists>i. p_idx p = Some i \<and> 0 \<le> i)
            \<and> (\<forall>job \<in> set jobs. \<exists>out others. process_images env job = Inr (out # others))
           \<longrightarrow> (\<exists>b. r = Inr b))"
proof -
  from private_postprocess_image_trace[OF run] obtain pre js where
    ev: "events st' = events st @ pre @ map ProcessImages js"
    and quiet: "engine_calls pre = []"
    and built: "js \<noteq> [] \<longrightarrow>
              (\<exists>i2i S T pred.
                 snd (get_i2i_p env p args (pp_image st) st) = Inr i2i
               \<and> get_seed p = Inr (S, T)
               \<and> snd (predict env args st) = Inr pred
               \<and> length js \<le> length (mask_preprocess env (pred_masks pred))
               \<and> (\<forall>k<length js.
                     js ! k = (if k = 0 then i2i
                               else i2i\<lparr>p_init_images := p_init_images (js ! k),
                                        p_seed := S + int k,
                                        p_subseed := T + int k\<rparr>)
                                \<lparr>p_image_mask := Some (mask_preprocess env (pred_masks pred) ! k)\<rparr>))"
    and res: "(case r of
               Inr b \<Rightarrow>
                 (\<exists>pred. snd (predict env args st) = Inr pred
                        \<and> length js = length (mask_preprocess env (pred_masks pred)))
                 \<and> (if b then js \<noteq> []
                            \<and> (\<exists>out others. process_images env (last js) = Inr (out # others)
                                  \<and> pp_image st' = out)
                     else js = [] \<and> pp_image st' = pp_image st
                          \<and> (\<exists>i. p_idx p = Some i \<and> printed pre = [nothing_detected i n]))
             | Inl e \<Rightarrow>
                 pp_image st' = pp_image st
                 \<and> (js \<noteq> [] \<longrightarrow>
                      (\<forall>out others. process_images env (last js) \<noteq> Inr (out # others)))
                 \<and> (js = [] \<longrightarrow>
                      \<not> (\<exists>i pred. p_idx p = Some i \<and> 0 \<le> i
                                  \<and> snd (predict env args st) = Inr pred)))"
    by blast
  have js: "jobs = js"
    using private_postprocess_image_jobs[OF run ev quiet] jobs by simp
  have facts: "length js \<le> length masks
       \<and> (\<forall>k<length js. p_seed (js ! k) = S + int k \<and> p_subseed (js ! k) = T + int k)"
  proof (cases "js = []")
    case True
    then show ?thesis by simp
  next
    case False
    with built obtain i2i S' T' pred' where
      b: "snd (get_i2i_p env p args (pp_image st) st) = Inr i2i"
      and s': "get_seed p = Inr (S', T')"
      and p': "snd (predict env args st) = Inr pred'"
      and l: "length js \<le> length (mask_preprocess env (pred_masks pred'))"
      and e: "\<forall>k<length js.
                     js ! k = (if k = 0 then i2i
                               else i2i\<lparr>p_init_images := p_init_images (js ! k),
                                        p_seed := S' + int k,
                                        p_subseed := T' + int k\<rparr>)
                                \<lparr>p_image_mask := Some (mask_preprocess env (pred_masks pred') ! k)\<rparr>"
      by blast
    from s' seeds have st: "S' = S" "T' = T" by simp_all
    from p' detect have pd: "pred' = pred" by simp
    from b obtain st1 where g: "get_i2i_p env p args (pp_image st) st = (st1, Inr i2i)"
      by (cases "get_i2i_p env p args (pp_image st) st") auto
    from get_i2i_p_selected[OF g] seeds have base: "p_seed i2i = S" "p_subseed i2i = T"
      by auto
    have "p_seed (js ! k) = S + int k \<and> p_subseed (js ! k) = T + int k" if k: "k < length js" for k
    proof -
      define job where
        "job = (if k = 0 then i2i
                else i2i\<lparr>p_init_images := p_init_images (js ! k),
                         p_seed := S' + int k,
                         p_subseed := T' + int k\<rparr>)
                 \<lparr>p_image_mask := Some (mask_preprocess env (pred_masks pred') ! k)\<rparr>"
      from e k have eq: "js ! k = job"
        unfolding job_def by blast
      have "p_seed job = S + int k" "p_subseed job = T + int k"
        unfolding job_def using base st by simp_all
      with eq show ?thesis by simp
    qed
    with l pd masks show ?thesis by simp
  qed
  have full: "length js = length masks" if "r = Inr b" for b
    using res that detect masks by auto
  have progress: "\<exists>b. r = Inr b"
    if idx: "\<exists>i. p_idx p = Some i \<and> 0 \<le> i"
    and ok: "\<forall>job \<in> set js. \<exists>out others. process_images env job = Inr (out # others)"
  proof (cases r)
    case (Inl e)
    with res have a: "js \<noteq> [] \<longrightarrow> (\<forall>out others. process_images env (last js) \<noteq> Inr (out # others))"
      and b: "js = [] \<longrightarrow> \<not> (\<exists>i pred. p_idx p = Some i \<and> 0 \<le> i \<and> snd (predict env args st) = Inr pred)"
      by auto
    show ?thesis
    proof (cases "js = []")
      case True
      with b idx detect show ?thesis by blast
    next
      case False
      then have "last js \<in> set js" by simp
      with ok a False show ?thesis by blast
    qed
  next
    case (Inr b)
    then show ?thesis by blast
  qed
  from facts have chain: "\<forall>k. Suc k < length js \<longrightarrow>
             p_seed (js ! Suc k) = p_seed (js ! k) + 1
           \<and> p_subseed (js ! Suc k) = p_subseed (js ! k) + 1"
    by simp
  from facts chain full progress show ?thesis
    unfolding js by blast
qed


theorem private_postprocess_image_seeds_witness:
  "map (\<lambda>job. (p_seed job, p_subseed job))
     (engine_calls (new_events example_state
        (fst (private_postprocess_image example_env (example_p\<lparr>p_idx := Some 1\<rparr>)
                example_args 0 example_state))))
   = [(1001, 2001), (1002, 2002)]"
proof -
  let ?p = "example_p\<lparr>p_idx := Some 1\<rparr>"
  let ?pred = "\<lparr>pred_masks = [1, 0, 2], pred_preview = Some (99::nat)\<rparr>"
  obtain st' r where run:
    "private_postprocess_image example_env ?p example_args 0 example_state = (st', r)"
    by (cases "private_postprocess_image example_env ?p example_args 0 example_state")
  have "snd (private_postprocess_image example_env ?p example_args 0 example_state) = Inr True"
    by (simp add: stage_defs example_defs)
  with run have r: "r = Inr True" by simp
  have seeds: "get_seed ?p = Inr (1001, 2001)"
    by (simp add: get_seed_def subscript_def example_p_def)
  have detect: "snd (predict example_env example_args example_state) = Inr ?pred"
    by (simp add: stage_defs example_defs)
  have masks: "mask_preprocess example_env (pred_masks ?pred) = [1, 2]"
    by (simp add: example_env_def)
  define jobs where "jobs = engine_calls (new_events example_state st')"
  note facts = private_postprocess_image_seeds[OF seeds detect masks run jobs_def]
  from facts have at: "\<forall>k<length jobs. p_seed (jobs ! k) = 1001 + int k
                         \<and> p_subseed (jobs ! k) = 2001 + int k"
    by blast
  from r have "\<exists>b. r = Inr b" by blast
  with facts have "length jobs = length [1::nat, 2]" by blast
  then have len: "length jobs = 2" by simp
  from length_two[OF len] obtain a b where ab: "jobs = [a, b]" by blast
  from at[rule_format, of 0] at[rule_format, of 1] have
    "p_seed a = 1001" "p_subseed a = 2001" "p_seed b = 1002" "p_subseed b = 2002"
    by (simp_all add: ab)
  then have "map (\<lambda>job. (p_seed job, p_subseed job)) jobs = [(1001, 2001), (1002, 2002)]"
    by (simp add: ab)
  with run show ?thesis by (simp add: jobs_def)
qed

section \<open>The enabled check\<close>

text \<open>
  C10: called with no argument at all, or with exactly one argument that is a bool,
  \<^verbatim>\<open>is_ad_enabled\<close> raises the \<^verbatim>\<open>ValueError\<close> "Not enough arguments passed to
  ADetailer", whose text shows the arguments; it never answers "disabled" there, whatever
  \<^verbatim>\<open>enable_check\<close> would say.
\<close>

theorem is_ad_enabled_not_enough_arguments:
  assumes "args_in = [] \<or> args_in = [Scalar (PyBool b)]"
  shows "is_ad_enabled env args_in =
           Inl (ValueError
             (newline @ ''[-] ADetailer: Not enough arguments passed to ADetailer.'' @ newline @
              ''    input: '' @ (if args_in = [] then ''()'' else ''('' @ repr_bool b @ '',)'') @
              newline))"
  using assms by (auto simp: is_ad_enabled_def repr_tuple_def)

theorem is_ad_enabled_not_enough_arguments_witness:
  "is_ad_enabled example_env [Scalar (PyBool False)] =
     Inl (ValueError
       (CHR 0x0A # ''[-] ADetailer: Not enough arguments passed to ADetailer.'' @
        CHR 0x0A # ''    input: (False,)'' @ [CHR 0x0A]))
   \<and> is_ad_enabled example_env [] =
     Inl (ValueError
       (CHR 0x0A # ''[-] ADetailer: Not enough arguments passed to ADetailer.'' @
        CHR 0x0A # ''    input: ()'' @ [CHR 0x0A]))"
  using is_ad_enabled_not_enough_arguments[of "[Scalar (PyBool False)]" False example_env]
        is_ad_enabled_not_enough_arguments[of "[]" False example_env]
  by (simp add: repr_bool_def newline_def)

section \<open>The detection device\<close>

text \<open>
  C8, as the code has it: on Darwin \<^verbatim>\<open>get_ultralytics_device\<close> returns the empty
  string (the backend detects the device), whatever the memory flags; on any other
  platform it returns "cpu" when \<^verbatim>\<open>lowvram\<close> or \<^verbatim>\<open>medvram\<close> is set and the
  empty string when neither is.
\<close>

theorem get_ultralytics_device_policy:
  "get_ultralytics_device env =
     (if platform_system env = ''Darwin'' then []
      else if lowvram (cmdline env) = Some True \<or> medvram (cmdline env) = Some True then ''cpu''
      else [])"
  by (auto simp: get_ultralytics_device_def getattr_flag_def split: option.splits)

theorem get_ultralytics_device_policy_witness:
  "get_ultralytics_device
     (example_env\<lparr>cmdline := \<lparr>lowvram = None, medvram = Some True\<rparr>\<rparr>) = ''cpu''
   \<and> get_ultralytics_device example_env = []"
  using get_ultralytics_device_policy[of
          "example_env\<lparr>cmdline := \<lparr>lowvram = None, medvram = Some True\<rparr>\<rparr>"]
        get_ultralytics_device_policy[of example_env]
  by (simp add: example_env_def)

text \<open>
  On Darwin with both memory flags set the device is the empty string, not "cpu".
\<close>

theorem get_ultralytics_device_darwin:
  "get_ultralytics_device
     (example_env\<lparr>platform_system := ''Darwin'',
                  cmdline := \<lparr>lowvram = Some True, medvram = Some True\<rparr>\<rparr>) = []
   \<and> get_ultralytics_device
     (example_env\<lparr>platform_system := ''Darwin'',
                  cmdline := \<lparr>lowvram = Some True, medvram = Some True\<rparr>\<rparr>) \<noteq> ''cpu''"
  by (simp add: get_ultralytics_device_def example_env_def)

section \<open>The sampler of a built job\<close>

text \<open>
  C7: the job \<^verbatim>\<open>get_i2i_p\<close> builds has the sampler "Euler" when the parent's sampler
  is "PLMS" or "UniPC", and the parent's sampler otherwise; so its sampler is never one of
  the two.
\<close>

theorem get_i2i_p_sampler:
  assumes "get_i2i_p env p args img st = (st', Inr job)"
  shows "p_sampler_name job =
           (if p_sampler_name p = ''PLMS'' \<or> p_sampler_name p = ''UniPC'' then ''Euler''
            else p_sampler_name p)
         \<and> p_sampler_name job \<noteq> ''PLMS'' \<and> p_sampler_name job \<noteq> ''UniPC''"
  using get_i2i_p_fields(1)[OF assms] by auto

theorem get_i2i_p_sampler_witness:
  "map_sum id p_sampler_name
     (snd (get_i2i_p example_env (example_p\<lparr>p_idx := Some 5, p_sampler_name := ''UniPC''\<rparr>)
             example_args 7 example_state)) = Inr ''Euler''"
proof -
  have "\<exists>st' job.
          get_i2i_p example_env (example_p\<lparr>p_idx := Some 5, p_sampler_name := ''UniPC''\<rparr>)
            example_args 7 example_state = (st', Inr job)"
    by (rule get_i2i_p_total[of _ 5]) simp_all
  then obtain st' job where
    b: "get_i2i_p example_env (example_p\<lparr>p_idx := Some 5, p_sampler_name := ''UniPC''\<rparr>)
          example_args 7 example_state = (st', Inr job)"
    by blast
  from get_i2i_p_sampler[OF b] have "p_sampler_name job = ''Euler''"
    by simp
  with b show ?thesis by simp
qed

section \<open>Prompts and seeds of a built job\<close>

text \<open>
  C4: the built job's prompt is the stage's prompt override when that is not empty;
  otherwise the parent's single prompt when the parent has no per-image list; otherwise
  the entry of the per-image list at index (image index mod list length). The negative
  prompt follows the same rule over its own override and list, and the seed and the
  subseed follow it, without an override, each over its own list. A job is built whenever
  the image index is not negative. With a list of three prompts and image index 5 the
  prompt is the entry at index 2.
\<close>

theorem get_i2i_p_selection:
  assumes "p_idx p = Some i"
  shows "(0 \<le> i \<longrightarrow> (\<exists>st' job. get_i2i_p env p args img st = (st', Inr job)))
       \<and> (\<forall>st' job. get_i2i_p env p args img st = (st', Inr job) \<longrightarrow>
            p_prompt job =
              (if ad_prompt args \<noteq> [] then ad_prompt args
               else if p_all_prompts p = [] then p_prompt p
               else p_all_prompts p ! nat (i mod int (length (p_all_prompts p))))
          \<and> p_negative_prompt job =
              (if ad_negative_prompt args \<noteq> [] then ad_negative_prompt args
               else if p_all_negative_prompts p = [] then p_negative_prompt p
               else p_all_negative_prompts p !
                      nat (i mod int (length (p_all_negative_prompts p))))
          \<and> p_seed job =
              (if p_all_seeds p = [] then p_seed p
               else p_all_seeds p ! nat (i mod int (length (p_all_seeds p))))
          \<and> p_subseed job =
              (if p_all_subseeds p = [] then p_subseed p
               else p_all_subseeds p ! nat (i mod int (length (p_all_subseeds p)))))"
proof (intro conjI allI impI)
  assume "0 \<le> i"
  with assms show "\<exists>st' job. get_i2i_p env p args img st = (st', Inr job)"
    by (rule get_i2i_p_total)
next
  fix st' job
  assume b: "get_i2i_p env p args img st = (st', Inr job)"
  from get_i2i_p_selected[OF b] obtain pr npr s t where
    sel: "get_prompt p args = Inr (pr, npr)" "get_seed p = Inr (s, t)"
    and eq: "p_prompt job = pr" "p_negative_prompt job = npr" "p_seed job = s" "p_subseed job = t"
    by blast
  show "p_prompt job =
              (if ad_prompt args \<noteq> [] then ad_prompt args
               else if p_all_prompts p = [] then p_prompt p
               else p_all_prompts p ! nat (i mod int (length (p_all_prompts p))))"
    using get_prompt_result(1)[OF sel(1) assms] eq by simp
  show "p_negative_prompt job =
              (if ad_negative_prompt args \<noteq> [] then ad_negative_prompt args
               else if p_all_negative_prompts p = [] then p_negative_prompt p
               else p_all_negative_prompts p !
                      nat (i mod int (length (p_all_negative_prompts p))))"
    using get_prompt_result(2)[OF sel(1) assms] eq by simp
  show "p_seed job =
              (if p_all_seeds p = [] then p_seed p
               else p_all_seeds p ! nat (i mod int (length (p_all_seeds p))))"
    using get_seed_result(1)[OF sel(2) assms] eq by simp
  show "p_subseed job =
              (if p_all_subseeds p = [] then p_subseed p
               else p_all_subseeds p ! nat (i mod int (length (p_all_subseeds p))))"
    using get_seed_result(2)[OF sel(2) assms] eq by simp
qed

theorem get_i2i_p_selection_witness:
  "map_sum id (\<lambda>job. (p_prompt job, p_negative_prompt job, p_seed job, p_subseed job))
     (snd (get_i2i_p example_env (example_p\<lparr>p_idx := Some 5\<rparr>) example_args 7 example_state))
   = Inr (''a cat'', ''dark'', 1002, 2002)"
proof -
  have idx: "p_idx (example_p\<lparr>p_idx := Some 5\<rparr>) = Some 5"
    by simp
  note sel = get_i2i_p_selection[OF idx, of example_env example_args 7 example_state]
  from sel obtain st' job where
    b: "get_i2i_p example_env (example_p\<lparr>p_idx := Some 5\<rparr>) example_args 7 example_state
          = (st', Inr job)"
    by auto
  with sel have "p_prompt job = ''a cat''" "p_negative_prompt job = ''dark''"
    "p_seed job = 1002" "p_subseed job = 2002"
    by (simp_all add: example_p_def example_args_def)
  with b show ?thesis by simp
qed

section \<open>The always-on scripts of a built job\<close>

lemma script_filter_wildcards:
  assumes "ad_only_seleted_scripts (opts env) \<noteq> Some False"
    and "ad_script_names (opts env) = Some ''wildcards''"
    and "ad_controlnet_model args \<noteq> ''None''"
  shows "alwayson_scripts (script_filter env p args) =
           filter (\<lambda>s. path_stem env (filename s) \<in> {''wildcards'', ''controlnet''})
             (alwayson_scripts (p_scripts p))"
proof -
  from assms(1) have on: "(case ad_only_seleted_scripts (opts env) of None \<Rightarrow> True | Some b \<Rightarrow> b)"
    by (cases "ad_only_seleted_scripts (opts env)") auto
  show ?thesis
    using on assms(2,3)
    by (auto simp: script_filter_def Let_def strip_wildcards intro!: filter_cong)
qed

text \<open>
  C6, as the code has it: with the filter setting on, the allow-list "wildcards" and a
  conditioning model other than "None", the always-on scripts of the built job are those
  of the parent job whose file stem is "wildcards" or "controlnet", in the parent's order.
  The set of their names is the parent's set intersected with the two names: a script the
  parent does not have is not added.
\<close>

theorem get_i2i_p_scripts:
  assumes "ad_only_seleted_scripts (opts env) \<noteq> Some False"
    and "ad_script_names (opts env) = Some ''wildcards''"
    and "ad_controlnet_model args \<noteq> ''None''"
    and "get_i2i_p env p args img st = (st', Inr job)"
  shows "alwayson_scripts (p_scripts job) =
           filter (\<lambda>s. path_stem env (filename s) \<in> {''wildcards'', ''controlnet''})
             (alwayson_scripts (p_scripts p))
       \<and> set (map (\<lambda>s. path_stem env (filename s)) (alwayson_scripts (p_scripts job))) =
           set (map (\<lambda>s. path_stem env (filename s)) (alwayson_scripts (p_scripts p)))
             \<inter> {''wildcards'', ''controlnet''}"
proof -
  have a: "alwayson_scripts (p_scripts job) =
           filter (\<lambda>s. path_stem env (filename s) \<in> {''wildcards'', ''controlnet''})
             (alwayson_scripts (p_scripts p))"
    using get_i2i_p_fields(2)[OF assms(4)] script_filter_wildcards[OF assms(1,2,3)] by simp
  show ?thesis unfolding a by auto
qed

theorem get_i2i_p_scripts_witness:
  "map_sum id (\<lambda>job. map filename (alwayson_scripts (p_scripts job)))
     (snd (get_i2i_p wildcards_env controlnet_p controlnet_args 7 example_state))
   = Inr [''/webui/extensions/sd-webui-controlnet/scripts/controlnet.py'',
          ''/webui/extensions/wildcards/scripts/wildcards.py'']"
proof -
  have "\<exists>st' job. get_i2i_p wildcards_env controlnet_p controlnet_args 7 example_state
          = (st', Inr job)"
    by (rule get_i2i_p_total[of _ 0]) (simp_all add: controlnet_p_def)
  then obtain st' job where
    b: "get_i2i_p wildcards_env controlnet_p controlnet_args 7 example_state = (st', Inr job)"
    by blast
  have h1: "ad_only_seleted_scripts (opts wildcards_env) \<noteq> Some False"
    and h2: "ad_script_names (opts wildcards_env) = Some ''wildcards''"
    and h3: "ad_controlnet_model controlnet_args \<noteq> ''None''"
    by (simp_all add: wildcards_env_def controlnet_args_def example_defs)
  from get_i2i_p_scripts[OF h1 h2 h3 b]
  have "alwayson_scripts (p_scripts job) =
          filter (\<lambda>s. path_stem wildcards_env (filename s) \<in> {''wildcards'', ''controlnet''})
            (alwayson_scripts (p_scripts controlnet_p))"
    by blast
  then have "map filename (alwayson_scripts (p_scripts job)) =
      [''/webui/extensions/sd-webui-controlnet/scripts/controlnet.py'',
       ''/webui/extensions/wildcards/scripts/wildcards.py'']"
    by (simp add: wildcards_env_def controlnet_p_def example_defs stems_example)
  with b show ?thesis by simp
qed

text \<open>
  A parent job without the conditioning extension: the built job has "wildcards" alone.
\<close>

theorem get_i2i_p_scripts_not_exact:
  "map_sum id (\<lambda>job. map (\<lambda>s. path_stem wildcards_env (filename s))
                        (alwayson_scripts (p_scripts job)))
     (snd (get_i2i_p wildcards_env (example_p\<lparr>p_idx := Some 0\<rparr>) controlnet_args 7 example_state))
   = Inr [''wildcards'']
   \<and> set [''wildcards''] \<noteq> {''wildcards'', ''controlnet''}"
  by (simp add: stage_defs example_defs wildcards_env_def controlnet_args_def)

section \<open>An unknown detector model\<close>

text \<open>
  C9, as the code has it: for a model name that does not select the mediapipe backend and
  is not a key of the registry, on an image index that is not negative, the stage fails
  with a \<^verbatim>\<open>ValueError\<close> whose text holds the \<^verbatim>\<open>repr\<close> of the name and of the
  list of all registered names, in registry order; the stage has made no engine call and
  the image is unchanged.
\<close>

theorem private_postprocess_image_unknown_model:
  assumes "\<not> startswith (lower (ad_model args)) ''mediapipe''"
    and "ad_model args \<notin> fst ` set (model_mapping env)"
    and "p_idx p = Some i" and "0 \<le> i"
  shows "\<exists>st'. private_postprocess_image env p args n st =
           (st', Inl (ValueError
              (''[-] ADetailer: Model '' @ repr_str env (ad_model args) @
               '' not found. Available models: '' @
               repr_list (map (repr_str env) (map fst (model_mapping env))))))
         \<and> engine_calls (new_events st st') = []
         \<and> pp_image st' = pp_image st"
proof -
  from get_i2i_p_total[OF assms(3,4)] obtain st1 i2i where
    g: "get_i2i_p env p args (pp_image st) st = (st1, Inr i2i)"
    by blast
  from get_i2i_p_frame[OF g] obtain n1 where
    n1: "events st1 = events st @ n1" "engine_calls n1 = []" and f1: "pp_image st1 = pp_image st"
    by blast
  from get_seed_total[OF assms(3,4)] obtain S T where sd: "get_seed p = Inr (S, T)"
    by blast
  from assms(2) have "map_of (model_mapping env) (ad_model args) = None"
    by (simp add: map_of_eq_None_iff)
  with assms(1) have pd: "predict env args st1 =
      (st1, Inl (ValueError
              (''[-] ADetailer: Model '' @ repr_str env (ad_model args) @
               '' not found. Available models: '' @
               repr_list (map (repr_str env) (map fst (model_mapping env))))))"
    by (simp add: predict_def get_ad_model_def)
  have "private_postprocess_image env p args n st =
      (st1, Inl (ValueError
              (''[-] ADetailer: Model '' @ repr_str env (ad_model args) @
               '' not found. Available models: '' @
               repr_list (map (repr_str env) (map fst (model_mapping env))))))"
    using assms(3) g sd pd by (simp add: private_postprocess_image_def)
  moreover have "engine_calls (new_events st st1) = []"
    using n1 by (simp add: new_events_def)
  ultimately show ?thesis using f1 by blast
qed

theorem private_postprocess_image_unknown_model_witness:
  "snd (private_postprocess_image example_env (example_p\<lparr>p_idx := Some 0\<rparr>)
          (example_args\<lparr>ad_model := ''nope.pt''\<rparr>) 0 example_state)
   = Inl (ValueError
       (''[-] ADetailer: Model 'nope.pt' not found. Available models: '' @
        ''['face_yolov8n.pt', 'hand_yolov8n.pt', 'person_yolov8n-seg.pt']''))"
proof -
  have h1: "\<not> startswith (lower (ad_model (example_args\<lparr>ad_model := ''nope.pt''\<rparr>))) ''mediapipe''"
    by (simp add: is_mediapipe_example)
  have h2: "ad_model (example_args\<lparr>ad_model := ''nope.pt''\<rparr>) \<notin> fst ` set (model_mapping example_env)"
    by (simp add: example_env_def)
  have h3: "p_idx (example_p\<lparr>p_idx := Some 0\<rparr>) = Some 0" by simp
  from private_postprocess_image_unknown_model[OF h1 h2 h3, of 0 example_state]
  show ?thesis
    by (auto simp: example_env_def repr_list_def)
qed

text \<open>
  The error raised for the unknown name "nope.pt" is a \<^verbatim>\<open>ValueError\<close>, which is
  not a \<^verbatim>\<open>LookupError\<close>.
\<close>

theorem private_postprocess_image_unknown_model_kind:
  "snd (private_postprocess_image example_env (example_p\<lparr>p_idx := Some 0\<rparr>)
          (example_args\<lparr>ad_model := ''nope.pt''\<rparr>) 0 example_state)
   = Inl (ValueError
       (''[-] ADetailer: Model 'nope.pt' not found. Available models: '' @
        ''['face_yolov8n.pt', 'hand_yolov8n.pt', 'person_yolov8n-seg.pt']''))
   \<and> \<not> is_LookupError (ValueError
       (''[-] ADetailer: Model 'nope.pt' not found. Available models: '' @
        ''['face_yolov8n.pt', 'hand_yolov8n.pt', 'person_yolov8n-seg.pt']''))"
  by (simp add: stage_defs example_defs repr_list_def)

section \<open>The whole hook on the example\<close>

lemmas pipeline_defs =
  postprocess_image_def is_ad_enabled_def get_args_def process_def extra_params_def
  dict_update_def

lemma example_run:
  "map (\<lambda>job. (p_init_images job, p_image_mask job, p_seed job, p_subseed job))
     (engine_calls (events (fst (snd
        (postprocess_image example_env example_p example_args_in example_state)))))
   = [([7], Some 1, 1000, 2000), ([71], Some 2, 1001, 2001), ([712], Some 3, 1000, 2000)]"
  "pp_image (fst (snd (postprocess_image example_env example_p example_args_in example_state)))
   = 7123"
  "snd (snd (postprocess_image example_env example_p example_args_in example_state)) = Inr ()"
  by (simp_all add: pipeline_defs stage_defs example_defs example_args_in_def engine_calls_def)

section \<open>No recursion into sub-jobs\<close>

text \<open>
  C5: every job \<^verbatim>\<open>get_i2i_p\<close> builds has \<^verbatim>\<open>_disable_adetailer\<close> set, and so has
  every job \<^verbatim>\<open>postprocess_image\<close> hands to the engine; and on a job with the attribute
  set both hooks, \<^verbatim>\<open>process\<close> and \<^verbatim>\<open>postprocess_image\<close>, return at once: the job
  and the state are unchanged, so there is no detector call, no engine call and no other
  event.
\<close>

theorem sub_jobs_do_not_recurse:
  "(get_i2i_p env p args img st = (st1, Inr built) \<longrightarrow> p_disable_adetailer built = Some True)
   \<and> (postprocess_image env p args_in st = (p', st', r) \<longrightarrow>
        (\<forall>job \<in> set (engine_calls (new_events st st')). p_disable_adetailer job = Some True))
   \<and> (p_disable_adetailer q = Some True \<longrightarrow>
        process env q a = (q, Inr ()) \<and> postprocess_image env q a s = (q, s, Inr ()))"
proof (intro conjI impI)
  assume "get_i2i_p env p args img st = (st1, Inr built)"
  then show "p_disable_adetailer built = Some True"
    by (rule get_i2i_p_fields(3))
next
  assume "postprocess_image env p args_in st = (p', st', r)"
  from postprocess_image_marker[OF this] obtain new where
    "events st' = events st @ new"
    "\<forall>job \<in> set (engine_calls new). p_disable_adetailer job = Some True"
    by blast
  then show "\<forall>job \<in> set (engine_calls (new_events st st')). p_disable_adetailer job = Some True"
    by (simp add: new_events_def)
next
  assume "p_disable_adetailer q = Some True"
  then show "process env q a = (q, Inr ())"
    by (simp add: process_def getattr_flag_def)
next
  assume "p_disable_adetailer q = Some True"
  then show "postprocess_image env q a s = (q, s, Inr ())"
    by (simp add: postprocess_image_def getattr_flag_def)
qed


theorem sub_jobs_do_not_recurse_witness:
  "length (engine_calls (new_events example_state (fst (snd
      (postprocess_image example_env example_p example_args_in example_state))))) = 3
   \<and> list_all
       (\<lambda>job. p_disable_adetailer job = Some True
             \<and> process example_env job example_args_in = (job, Inr ())
             \<and> postprocess_image example_env job example_args_in example_state
                 = (job, example_state, Inr ()))
       (engine_calls (new_events example_state (fst (snd
          (postprocess_image example_env example_p example_args_in example_state)))))"
proof -
  obtain p' st' r where
    run: "postprocess_image example_env example_p example_args_in example_state = (p', st', r)"
    by (cases "postprocess_image example_env example_p example_args_in example_state") auto
  have new: "new_events example_state st' = events st'"
    by (simp add: new_events_def example_state_def)
  from example_run(1) run new
  have "length (map (\<lambda>job. (p_init_images job, p_image_mask job, p_seed job, p_subseed job))
          (engine_calls (new_events example_state st'))) = 3"
    by simp
  then have len: "length (engine_calls (new_events example_state st')) = 3"
    by simp
  have "p_disable_adetailer job = Some True
      \<and> process example_env job example_args_in = (job, Inr ())
      \<and> postprocess_image example_env job example_args_in example_state
          = (job, example_state, Inr ())"
    if "job \<in> set (engine_calls (new_events example_state st'))" for job
    using that run
      sub_jobs_do_not_recurse[where env = example_env and p = example_p
        and args_in = example_args_in and st = example_state and p' = p' and st' = st'
        and r = r and q = job and a = example_args_in and s = example_state]
    by blast
  then have "list_all
       (\<lambda>job. p_disable_adetailer job = Some True
             \<and> process example_env job example_args_in = (job, Inr ())
             \<and> postprocess_image example_env job example_args_in example_state
                 = (job, example_state, Inr ()))
       (engine_calls (new_events example_state st'))"
    by (simp add: list_all_iff)
  with len run show ?thesis by simp
qed

section \<open>Nothing detected\<close>

lemma private_postprocess_image_nothing:
  assumes idx: "p_idx p = Some i" "0 \<le> i"
    and det: "snd (predict env args st) = Inr pred"
    and none: "mask_preprocess env (pred_masks pred) = []"
  shows "\<exists>st' pre. private_postprocess_image env p args n st = (st', Inr False)
           \<and> events st' = events st @ pre
           \<and> engine_calls pre = [] \<and> printed pre = [nothing_detected i n]
           \<and> pp_image st' = pp_image st
           \<and> ultralytics_device st' = ultralytics_device st"
proof -
  obtain st' r where run: "private_postprocess_image env p args n st = (st', r)"
    by (cases "private_postprocess_image env p args n st")
  from private_postprocess_image_trace[OF run] obtain pre js where
    ev: "events st' = events st @ pre @ map ProcessImages js"
    and quiet: "engine_calls pre = []"
    and dev: "ultralytics_device st' = ultralytics_device st"
    and built: "js \<noteq> [] \<longrightarrow>
              (\<exists>i2i S T pred.
                 snd (get_i2i_p env p args (pp_image st) st) = Inr i2i
               \<and> get_seed p = Inr (S, T)
               \<and> snd (predict env args st) = Inr pred
               \<and> length js \<le> length (mask_preprocess env (pred_masks pred))
               \<and> (\<forall>k<length js.
                     js ! k = (if k = 0 then i2i
                               else i2i\<lparr>p_init_images := p_init_images (js ! k),
                                        p_seed := S + int k,
                                        p_subseed := T + int k\<rparr>)
                                \<lparr>p_image_mask := Some (mask_preprocess env (pred_masks pred) ! k)\<rparr>))"
    and res: "(case r of
               Inr b \<Rightarrow>
                 (\<exists>pred. snd (predict env args st) = Inr pred
                        \<and> length js = length (mask_preprocess env (pred_masks pred)))
                 \<and> (if b then js \<noteq> []
                            \<and> (\<exists>out others. process_images env (last js) = Inr (out # others)
                                  \<and> pp_image st' = out)
                     else js = [] \<and> pp_image st' = pp_image st
                          \<and> (\<exists>i. p_idx p = Some i \<and> printed pre = [nothing_detected i n]))
             | Inl e \<Rightarrow>
                 pp_image st' = pp_image st
                 \<and> (js \<noteq> [] \<longrightarrow>
                      (\<forall>out others. process_images env (last js) \<noteq> Inr (out # others)))
                 \<and> (js = [] \<longrightarrow>
                      \<not> (\<exists>i pred. p_idx p = Some i \<and> 0 \<le> i
                                  \<and> snd (predict env args st) = Inr pred)))"
    by blast
  have empty: "js = []"
  proof (rule ccontr)
    assume "js \<noteq> []"
    with built obtain pred' where "snd (predict env args st) = Inr pred'"
      and "length js \<le> length (mask_preprocess env (pred_masks pred'))"
      by blast
    with det none \<open>js \<noteq> []\<close> show False by simp
  qed
  show ?thesis
  proof (cases r)
    case (Inl e)
    with res empty idx det show ?thesis by auto
  next
    case (Inr b)
    with res empty have "\<not> b" by auto
    with res Inr idx have "pp_image st' = pp_image st" "printed pre = [nothing_detected i n]"
      by auto
    with run Inr \<open>\<not> b\<close> ev empty quiet dev show ?thesis by auto
  qed
qed

lemma stages_nothing:
  assumes idx: "p_idx p = Some i" "0 \<le> i"
    and none: "\<forall>args \<in> set arg_list. ad_model args \<noteq> ''None'' \<longrightarrow>
             (\<exists>pred. snd (predict env args st) = Inr pred
                    \<and> mask_preprocess env (pred_masks pred) = [])"
  shows "\<exists>st' new. stages env p (int k) arg_list b st = (st', Inr b)
           \<and> events st' = events st @ new
           \<and> engine_calls new = []
           \<and> printed new =
               map (\<lambda>(n, args). nothing_detected i (int n))
                 (filter (\<lambda>(n, args). ad_model args \<noteq> ''None'') (enumerate k arg_list))
           \<and> pp_image st' = pp_image st
           \<and> ultralytics_device st' = ultralytics_device st"
  using none
proof (induction arg_list arbitrary: k st)
  case Nil
  then show ?case by simp
next
  case (Cons args rest)
  have suc: "int k + 1 = int (Suc k)" by simp
  show ?case
  proof (cases "ad_model args = ''None''")
    case True
    from Cons.prems have "\<forall>args \<in> set rest. ad_model args \<noteq> ''None'' \<longrightarrow>
             (\<exists>pred. snd (predict env args st) = Inr pred
                    \<and> mask_preprocess env (pred_masks pred) = [])"
      by simp
    from Cons.IH[OF this, of "Suc k"] True show ?thesis
      by (simp add: suc)
  next
    case False
    with Cons.prems obtain pred where det: "snd (predict env args st) = Inr pred"
      and none: "mask_preprocess env (pred_masks pred) = []"
      by auto
    from private_postprocess_image_nothing[OF idx det none, of "int k"] obtain st1 pre where
      s1: "private_postprocess_image env p args (int k) st = (st1, Inr False)"
      and e1: "events st1 = events st @ pre" "engine_calls pre = []"
        "printed pre = [nothing_detected i (int k)]"
      and f1: "pp_image st1 = pp_image st" "ultralytics_device st1 = ultralytics_device st"
      by blast
    have "\<forall>args \<in> set rest. ad_model args \<noteq> ''None'' \<longrightarrow>
             (\<exists>pred. snd (predict env args st1) = Inr pred
                    \<and> mask_preprocess env (pred_masks pred) = [])"
      using Cons.prems predict_result[OF f1] by simp
    from Cons.IH[OF this, of "Suc k"] obtain st' new where
      s2: "stages env p (int (Suc k)) rest b st1 = (st', Inr b)"
      and e2: "events st' = events st1 @ new" "engine_calls new = []"
        "printed new = map (\<lambda>(n, args). nothing_detected i (int n))
                 (filter (\<lambda>(n, args). ad_model args \<noteq> ''None'') (enumerate (Suc k) rest))"
      and f2: "pp_image st' = pp_image st1" "ultralytics_device st' = ultralytics_device st1"
      by blast
    have "stages env p (int k) (args # rest) b st = (st', Inr b)"
      using False s1 s2 by (simp add: suc)
    moreover have "events st' = events st @ (pre @ new)"
      using e1 e2 by simp
    moreover have "engine_calls (pre @ new) = []"
      using e1 e2 by (simp add: engine_calls_append)
    moreover have "printed (pre @ new) =
               map (\<lambda>(n, args). nothing_detected i (int n))
                 (filter (\<lambda>(n, args). ad_model args \<noteq> ''None'') (enumerate k (args # rest)))"
      using e1 e2 False by (simp add: printed_append)
    ultimately show ?thesis
      using f1 f2 by (intro exI[of _ st'] exI[of _ "pre @ new"]) simp
  qed
qed

text \<open>
  C3: when the hook runs (the job is not a sub-job, the script is enabled, the arguments
  validate, the image index is not negative) and every stage that is not skipped detects
  no mask on the image, the hook returns without an error, the image is the input image,
  no engine call was made, and the lines printed are the "nothing detected" lines of the
  stages that were not skipped, in stage order.
\<close>

theorem postprocess_image_nothing_detected:
  assumes off: "\<not> getattr_flag (p_disable_adetailer p)"
    and on: "is_ad_enabled env args_in = Inr True"
    and args: "get_args env args_in = Inr arg_list"
    and i: "i = (case p_idx p of None \<Rightarrow> - 1 | Some k \<Rightarrow> k) + 1" and nonneg: "0 \<le> i"
    and none: "\<forall>args \<in> set arg_list. ad_model args \<noteq> ''None'' \<longrightarrow>
             (\<exists>pred. snd (predict env args st) = Inr pred
                    \<and> mask_preprocess env (pred_masks pred) = [])"
  shows "\<exists>st'. postprocess_image env p args_in st = (p\<lparr>p_idx := Some i\<rparr>, st', Inr ())
           \<and> pp_image st' = pp_image st
           \<and> engine_calls (new_events st st') = []
           \<and> printed (new_events st st') =
               map (\<lambda>(n, args). nothing_detected i (int n))
                 (filter (\<lambda>(n, args). ad_model args \<noteq> ''None'') (enumerate 0 arg_list))"
proof -
  let ?p1 = "p\<lparr>p_idx := Some i\<rparr>"
  have idx: "p_idx ?p1 = Some i" by simp
  from stages_nothing[OF idx nonneg none, of 0 False] obtain st1 new where
    sg: "stages env ?p1 0 arg_list False st = (st1, Inr False)"
    and e: "events st1 = events st @ new" "engine_calls new = []"
      "printed new = map (\<lambda>(n, args). nothing_detected i (int n))
                 (filter (\<lambda>(n, args). ad_model args \<noteq> ''None'') (enumerate 0 arg_list))"
    and f: "pp_image st1 = pp_image st"
    by auto
  let ?st' = "(if p_idx ?p1 = Some (int (length (p_all_prompts ?p1)) - 1)
              then emit WriteParamsTxt st1 else st1)"
  have run: "postprocess_image env p args_in st = (?p1, ?st', Inr ())"
    using off on args sg i by (simp add: postprocess_image_def Let_def)
  obtain tail where t: "events ?st' = events st1 @ tail" "engine_calls tail = []" "printed tail = []"
    and ft: "pp_image ?st' = pp_image st1"
    by (cases "p_idx ?p1 = Some (int (length (p_all_prompts ?p1)) - 1)")
       (auto simp: emit_def engine_calls_def printed_def)
  have "new_events st ?st' = new @ tail"
    using e t by (simp add: new_events_def)
  with run e t f ft show ?thesis
    by (intro exI[of _ ?st']) (simp add: engine_calls_append printed_append)
qed

theorem postprocess_image_nothing_detected_witness:
  "snd (snd (postprocess_image example_env example_p quiet_args_in example_state)) = Inr ()
   \<and> pp_image (fst (snd (postprocess_image example_env example_p quiet_args_in example_state)))
       = 7
   \<and> engine_calls (new_events example_state (fst (snd
        (postprocess_image example_env example_p quiet_args_in example_state)))) = []
   \<and> printed (new_events example_state (fst (snd
        (postprocess_image example_env example_p quiet_args_in example_state))))
       = [''[-] ADetailer: nothing detected on image 1 with 1st settings.'',
          ''[-] ADetailer: nothing detected on image 1 with 3rd settings.'']"
proof -
  let ?arg_list = "[example_args\<lparr>ad_model := ''person_yolov8n-seg.pt''\<rparr>,
                    example_args\<lparr>ad_model := ''None''\<rparr>,
                    example_args\<lparr>ad_model := ''mediapipe_face_full''\<rparr>]"
  have h1: "\<not> getattr_flag (p_disable_adetailer example_p)"
    by (simp add: getattr_flag_def example_p_def)
  have h2: "is_ad_enabled example_env quiet_args_in = Inr True"
    by (simp add: is_ad_enabled_def quiet_args_in_def example_env_def)
  have h3: "get_args example_env quiet_args_in = Inr ?arg_list"
    by (simp add: get_args_def quiet_args_in_def example_env_def)
  have h4: "(0::int) = (case p_idx example_p of None \<Rightarrow> - 1 | Some k \<Rightarrow> k) + 1"
    by (simp add: example_p_def)
  have h5: "(0::int) \<le> 0" by simp
  have h6: "\<forall>args \<in> set ?arg_list. ad_model args \<noteq> ''None'' \<longrightarrow>
             (\<exists>pred. snd (predict example_env args example_state) = Inr pred
                    \<and> mask_preprocess example_env (pred_masks pred) = [])"
    by (simp add: predict_def get_ad_model_def is_mediapipe_example example_env_def Let_def)
  from postprocess_image_nothing_detected[OF h1 h2 h3 h4 h5 h6]
  show ?thesis
    by (auto simp: example_state_def nothing_detected_def ordinal_def str_int_def enumerate_eq_zip)
qed

section \<open>Two stages\<close>

lemma private_postprocess_image_success:
  assumes run: "private_postprocess_image env p args n st = (st', r)"
    and idx: "p_idx p = Some i" "0 \<le> i"
    and det: "snd (predict env args st) = Inr pred"
    and masks: "mask_preprocess env (pred_masks pred) = masks" "masks \<noteq> []"
    and ok: "\<forall>job \<in> set (engine_calls (new_events st st')).
               \<exists>out others. process_images env job = Inr (out # others)"
  shows "\<exists>js out others.
           engine_calls (new_events st st') = js
         \<and> r = Inr True
         \<and> length js = length masks
         \<and> chained env (pp_image st) js
         \<and> process_images env (last js) = Inr (out # others)
         \<and> pp_image st' = out
         \<and> ultralytics_device st' = ultralytics_device st
         \<and> (\<forall>k<length js. p_image_mask (js ! k) = Some (masks ! k)
                           \<and> p_denoising_strength (js ! k) = ad_denoising_strength args)"
proof -
  from private_postprocess_image_trace[OF run] obtain pre js where
    ev: "events st' = events st @ pre @ map ProcessImages js"
    and quiet: "engine_calls pre = []"
    and dev: "ultralytics_device st' = ultralytics_device st"
    and ch: "chained env (pp_image st) js"
    and built: "js \<noteq> [] \<longrightarrow>
              (\<exists>i2i S T pred.
                 snd (get_i2i_p env p args (pp_image st) st) = Inr i2i
               \<and> get_seed p = Inr (S, T)
               \<and> snd (predict env args st) = Inr pred
               \<and> length js \<le> length (mask_preprocess env (pred_masks pred))
               \<and> (\<forall>k<length js.
                     js ! k = (if k = 0 then i2i
                               else i2i\<lparr>p_init_images := p_init_images (js ! k),
                                        p_seed := S + int k,
                                        p_subseed := T + int k\<rparr>)
                                \<lparr>p_image_mask := Some (mask_preprocess env (pred_masks pred) ! k)\<rparr>))"
    and res: "(case r of
               Inr b \<Rightarrow>
                 (\<exists>pred. snd (predict env args st) = Inr pred
                        \<and> length js = length (mask_preprocess env (pred_masks pred)))
                 \<and> (if b then js \<noteq> []
                            \<and> (\<exists>out others. process_images env (last js) = Inr (out # others)
                                  \<and> pp_image st' = out)
                     else js = [] \<and> pp_image st' = pp_image st
                          \<and> (\<exists>i. p_idx p = Some i \<and> printed pre = [nothing_detected i n]))
             | Inl e \<Rightarrow>
                 pp_image st' = pp_image st
                 \<and> (js \<noteq> [] \<longrightarrow>
                      (\<forall>out others. process_images env (last js) \<noteq> Inr (out # others)))
                 \<and> (js = [] \<longrightarrow>
                      \<not> (\<exists>i pred. p_idx p = Some i \<and> 0 \<le> i
                                  \<and> snd (predict env args st) = Inr pred)))"
    by blast
  have js: "engine_calls (new_events st st') = js"
    using private_postprocess_image_jobs[OF run ev quiet] .
  have returned: "\<exists>b. r = Inr b"
  proof (cases r)
    case (Inl e)
    with res have a: "js \<noteq> [] \<longrightarrow> (\<forall>out others. process_images env (last js) \<noteq> Inr (out # others))"
      and b: "js = [] \<longrightarrow> \<not> (\<exists>i pred. p_idx p = Some i \<and> 0 \<le> i \<and> snd (predict env args st) = Inr pred)"
      by auto
    show ?thesis
    proof (cases "js = []")
      case True
      with b idx det show ?thesis by blast
    next
      case False
      then have "last js \<in> set js" by simp
      with ok js a False show ?thesis by blast
    qed
  next
    case (Inr b)
    then show ?thesis by blast
  qed
  then obtain b where rb: "r = Inr b" by blast
  with res det masks have len: "length js = length masks" by auto
  with masks have ne: "js \<noteq> []" by auto
  with res rb have bt: "b" by (cases b) auto
  with res rb obtain out others where
    out: "process_images env (last js) = Inr (out # others)" "pp_image st' = out"
    by auto
  from built ne obtain i2i S T pred' where
    g: "snd (get_i2i_p env p args (pp_image st) st) = Inr i2i"
    and "get_seed p = Inr (S, T)"
    and p': "snd (predict env args st) = Inr pred'"
    and "length js \<le> length (mask_preprocess env (pred_masks pred'))"
    and e: "\<forall>k<length js.
                     js ! k = (if k = 0 then i2i
                               else i2i\<lparr>p_init_images := p_init_images (js ! k),
                                        p_seed := S + int k,
                                        p_subseed := T + int k\<rparr>)
                                \<lparr>p_image_mask := Some (mask_preprocess env (pred_masks pred') ! k)\<rparr>"
    by blast
  from p' det masks have m: "mask_preprocess env (pred_masks pred') = masks" by simp
  from g obtain st1 where gi: "get_i2i_p env p args (pp_image st) st = (st1, Inr i2i)"
    by (cases "get_i2i_p env p args (pp_image st) st") auto
  have dn: "p_denoising_strength i2i = ad_denoising_strength args"
    using get_i2i_p_fields(6)[OF gi] .
  have per: "p_image_mask (js ! k) = Some (masks ! k)
           \<and> p_denoising_strength (js ! k) = ad_denoising_strength args" if k: "k < length js" for k
  proof -
    define x where
      "x = (if k = 0 then i2i
            else i2i\<lparr>p_init_images := p_init_images (js ! k),
                     p_seed := S + int k,
                     p_subseed := T + int k\<rparr>)
             \<lparr>p_image_mask := Some (mask_preprocess env (pred_masks pred') ! k)\<rparr>"
    from e k have eq: "js ! k = x"
      unfolding x_def by blast
    have "p_image_mask x = Some (masks ! k)" "p_denoising_strength x = ad_denoising_strength args"
      unfolding x_def using m dn by simp_all
    with eq show ?thesis by simp
  qed
  from js rb bt len ch out dev per show ?thesis by blast
qed

lemma stages_events:
  assumes "stages env p n arg_list b st = (st', r)"
  shows "\<exists>new. events st' = events st @ new"
  using stages_marker[OF assms] by blast

lemma postprocess_image_after_stages:
  assumes off: "\<not> getattr_flag (p_disable_adetailer p)"
    and on: "is_ad_enabled env args_in = Inr True"
    and args: "get_args env args_in = Inr arg_list"
    and i: "i = (case p_idx p of None \<Rightarrow> - 1 | Some k \<Rightarrow> k) + 1"
    and sg: "stages env (p\<lparr>p_idx := Some i\<rparr>) 0 arg_list False st = (st1, r1)"
    and run: "postprocess_image env p args_in st = (p', st', r)"
  shows "\<exists>tail. events st' = events st1 @ tail \<and> engine_calls tail = []"
    and "pp_image st' = pp_image st1"
    and "(\<exists>b. r1 = Inr b) \<and> 0 \<le> i \<longrightarrow> r = Inr ()"
proof -
  let ?p1 = "p\<lparr>p_idx := Some i\<rparr>"
  have both: "(\<exists>tail. events st' = events st1 @ tail \<and> engine_calls tail = [])
            \<and> pp_image st' = pp_image st1
            \<and> ((\<exists>b. r1 = Inr b) \<and> 0 \<le> i \<longrightarrow> r = Inr ())"
  proof (cases r1)
    case (Inl e)
    with run off on args sg i have "st' = st1"
      by (simp add: postprocess_image_def Let_def)
    with Inl show ?thesis by simp
  next
    case (Inr is_processed)
    obtain st2 r2 where sv:
      "(if is_processed
        then save_image env ?p1 (Some (pp_image st)) ''ad_save_images_before'' ''-ad-before'' st1
        else (st1, Inr ())) = (st2, r2)"
      by (cases "(if is_processed
        then save_image env ?p1 (Some (pp_image st)) ''ad_save_images_before'' ''-ad-before'' st1
        else (st1, Inr ()))")
    then obtain new2 where n2: "events st2 = events st1 @ new2" "engine_calls new2 = []"
      and f2: "pp_image st2 = pp_image st1"
      using save_image_frame[of env ?p1 "Some (pp_image st)" "''ad_save_images_before''"
              "''-ad-before''" st1 st2 r2]
      by (cases is_processed) auto
    have r2: "r2 = Inr ()" if "0 \<le> i"
      using sv save_image_total[of ?p1 i env "Some (pp_image st)" "''ad_save_images_before''"
              "''-ad-before''" st1] that
      by (cases is_processed) auto
    from run off on args sg i Inr sv
    have st': "st' = st2 \<or> st' = emit WriteParamsTxt st2"
      and r: "r = (case r2 of Inl e \<Rightarrow> Inl e | Inr u \<Rightarrow> Inr ())"
      by (auto simp: postprocess_image_def Let_def split: sum.splits if_splits)
    from st' obtain new3 where n3: "events st' = events st2 @ new3" "engine_calls new3 = []"
      and f3: "pp_image st' = pp_image st2"
      by (auto simp: emit_def engine_calls_def)
    from n2 n3 have "events st' = events st1 @ (new2 @ new3)" "engine_calls (new2 @ new3) = []"
      by (simp_all add: engine_calls_append)
    then have "\<exists>tail. events st' = events st1 @ tail \<and> engine_calls tail = []"
      by blast
    with f2 f3 r r2 show ?thesis by auto
  qed
  from both show "\<exists>tail. events st' = events st1 @ tail \<and> engine_calls tail = []"
    and "pp_image st' = pp_image st1"
    and "(\<exists>b. r1 = Inr b) \<and> 0 \<le> i \<longrightarrow> r = Inr ()"
    by blast+
qed

lemma length_one: "length xs = 1 \<Longrightarrow> xs = [xs ! 0]"
  by (cases xs) auto

lemma chained_pair:
  assumes "chained env img [j1, j2]"
  shows "p_init_images j1 = [img]"
    and "\<exists>out others. process_images env j1 = Inr (out # others) \<and> p_init_images j2 = [out]"
  using assms by (auto split: sum.splits list.splits)

text \<open>
  C2: the hook runs with two stages, neither skipped; the first detects exactly the masks
  \<open>m1\<close> and \<open>m2\<close> on the input image, the second exactly \<open>m3\<close> on the image the
  first stage leaves, and every engine call made returns an image. Then exactly three
  engine calls are made, in the order (first stage, \<open>m1\<close>), (first stage, \<open>m2\<close>),
  (second stage, \<open>m3\<close>), each with the denoising strength of its stage; the first gets the
  input image, each later one the first image returned by the call just before it, and
  the image the hook leaves is the one returned by the third call.
\<close>

theorem postprocess_image_two_stages:
  assumes off: "\<not> getattr_flag (p_disable_adetailer p)"
    and on: "is_ad_enabled env args_in = Inr True"
    and args: "get_args env args_in = Inr [a1, a2]"
    and used: "ad_model a1 \<noteq> ''None''" "ad_model a2 \<noteq> ''None''"
    and i: "i = (case p_idx p of None \<Rightarrow> - 1 | Some k \<Rightarrow> k) + 1" and nonneg: "0 \<le> i"
    and det1: "snd (predict env a1 st) = Inr pred1"
    and masks1: "mask_preprocess env (pred_masks pred1) = [m1, m2]"
    and s1: "s1 = fst (private_postprocess_image env (p\<lparr>p_idx := Some i\<rparr>) a1 0 st)"
    and det2: "snd (predict env a2 s1) = Inr pred2"
    and masks2: "mask_preprocess env (pred_masks pred2) = [m3]"
    and run: "postprocess_image env p args_in st = (p', st', r)"
    and ok: "\<forall>job \<in> set (engine_calls (new_events st st')).
               \<exists>out others. process_images env job = Inr (out # others)"
  shows "\<exists>j1 j2 j3 o1 o2 o3 r1 r2 r3.
           engine_calls (new_events st st') = [j1, j2, j3]
         \<and> p_image_mask j1 = Some m1 \<and> p_denoising_strength j1 = ad_denoising_strength a1
         \<and> p_image_mask j2 = Some m2 \<and> p_denoising_strength j2 = ad_denoising_strength a1
         \<and> p_image_mask j3 = Some m3 \<and> p_denoising_strength j3 = ad_denoising_strength a2
         \<and> p_init_images j1 = [pp_image st]
         \<and> process_images env j1 = Inr (o1 # r1) \<and> p_init_images j2 = [o1]
         \<and> process_images env j2 = Inr (o2 # r2) \<and> p_init_images j3 = [o2]
         \<and> process_images env j3 = Inr (o3 # r3) \<and> pp_image st' = o3
         \<and> r = Inr ()"
proof -
  let ?p1 = "p\<lparr>p_idx := Some i\<rparr>"
  have idx: "p_idx ?p1 = Some i" by simp
  obtain q1 where st1: "private_postprocess_image env ?p1 a1 0 st = (s1, q1)"
    using s1 by (cases "private_postprocess_image env ?p1 a1 0 st") simp
  obtain sA rA where sg: "stages env ?p1 0 [a1, a2] False st = (sA, rA)"
    by (cases "stages env ?p1 0 [a1, a2] False st")
  note after = postprocess_image_after_stages[OF off on args i sg run]
  from after(1) obtain tail where tail: "events st' = events sA @ tail" "engine_calls tail = []"
    by blast
  from private_postprocess_image_marker[OF st1] obtain new1 where
    new1: "events s1 = events st @ new1"
    by blast
  have "stages env ?p1 0 [a1, a2] False st =
          (case private_postprocess_image env ?p1 a1 0 st of
             (st1, Inl e) \<Rightarrow> (st1, Inl e)
           | (st1, Inr b) \<Rightarrow> stages env ?p1 (0 + 1) [a2] (False \<or> b) st1)"
    using used(1) by (subst stages.simps(2)) (simp del: stages.simps)
  with sg st1 have rest: "(sA, rA) = (case q1 of Inl e \<Rightarrow> (s1, Inl e)
                                    | Inr b1 \<Rightarrow> stages env ?p1 1 [a2] b1 s1)"
    by (simp del: stages.simps split: sum.splits)
  have "\<exists>mid. events sA = events s1 @ mid"
  proof (cases q1)
    case (Inl e)
    with rest show ?thesis by simp
  next
    case (Inr b1)
    with rest have "stages env ?p1 1 [a2] b1 s1 = (sA, rA)" by simp
    then show ?thesis by (rule stages_events)
  qed
  then obtain mid where mid: "events sA = events s1 @ mid"
    by blast
  have all: "engine_calls (new_events st st') = engine_calls new1 @ engine_calls mid"
    using tail new1 mid by (simp add: new_events_def engine_calls_append)
  have first: "engine_calls (new_events st s1) = engine_calls new1"
    using new1 by (simp add: new_events_def)
  have ok1: "\<forall>job \<in> set (engine_calls (new_events st s1)).
               \<exists>out others. process_images env job = Inr (out # others)"
    using ok all first by simp
  from private_postprocess_image_success[OF st1 idx nonneg det1 masks1 _ ok1]
  obtain js1 o2 r2 where
    js1: "engine_calls (new_events st s1) = js1"
    and q1: "q1 = Inr True"
    and len1: "length js1 = length [m1, m2]"
    and ch1: "chained env (pp_image st) js1"
    and out1: "process_images env (last js1) = Inr (o2 # r2)" "pp_image s1 = o2"
    and per1: "\<forall>k<length js1. p_image_mask (js1 ! k) = Some ([m1, m2] ! k)
                           \<and> p_denoising_strength (js1 ! k) = ad_denoising_strength a1"
    by auto
  obtain s2 q2 where st2: "private_postprocess_image env ?p1 a2 1 s1 = (s2, q2)"
    by (cases "private_postprocess_image env ?p1 a2 1 s1")
  from rest q1 st2 used(2) have sA: "sA = s2"
    and rA: "rA = (case q2 of Inl e \<Rightarrow> Inl e | Inr b2 \<Rightarrow> Inr True)"
    by (auto split: sum.splits)
  from mid sA have second: "engine_calls (new_events s1 s2) = engine_calls mid"
    by (simp add: new_events_def)
  have ok2: "\<forall>job \<in> set (engine_calls (new_events s1 s2)).
               \<exists>out others. process_images env job = Inr (out # others)"
    using ok all second by simp
  from private_postprocess_image_success[OF st2 idx nonneg det2 masks2 _ ok2]
  obtain js2 o3 r3 where
    js2: "engine_calls (new_events s1 s2) = js2"
    and q2: "q2 = Inr True"
    and len2: "length js2 = length [m3]"
    and ch2: "chained env (pp_image s1) js2"
    and out2: "process_images env (last js2) = Inr (o3 # r3)" "pp_image s2 = o3"
    and per2: "\<forall>k<length js2. p_image_mask (js2 ! k) = Some ([m3] ! k)
                           \<and> p_denoising_strength (js2 ! k) = ad_denoising_strength a2"
    by auto
  from len1 have "length js1 = 2" by simp
  from length_two[OF this] obtain j1 j2 where j12: "js1 = [j1, j2]" by blast
  from len2 have "length js2 = 1" by simp
  from length_one[OF this] obtain j3 where j3: "js2 = [j3]" by blast
  from rA q2 have "rA = Inr True" by simp
  with after(3) nonneg have r: "r = Inr ()" by blast
  from after(2) sA out2 have img: "pp_image st' = o3" by simp
  have calls: "engine_calls (new_events st st') = [j1, j2, j3]"
    using all first second js1 js2 j12 j3 by simp
  from per1[rule_format, of 0] per1[rule_format, of 1] j12
  have p1: "p_image_mask j1 = Some m1" "p_denoising_strength j1 = ad_denoising_strength a1"
    "p_image_mask j2 = Some m2" "p_denoising_strength j2 = ad_denoising_strength a1"
    by simp_all
  from per2[rule_format, of 0] j3
  have p2: "p_image_mask j3 = Some m3" "p_denoising_strength j3 = ad_denoising_strength a2"
    by simp_all
  from ch1 j12 have c1: "p_init_images j1 = [pp_image st]"
    and "\<exists>out others. process_images env j1 = Inr (out # others) \<and> p_init_images j2 = [out]"
    using chained_pair[of env "pp_image st" j1 j2] by simp_all
  then obtain o1 r1 where c2: "process_images env j1 = Inr (o1 # r1)" "p_init_images j2 = [o1]"
    by blast
  from out1 j12 have c3: "process_images env j2 = Inr (o2 # r2)" by simp
  from ch2 j3 out1 have c4: "p_init_images j3 = [o2]" by simp
  from out2 j3 have c5: "process_images env j3 = Inr (o3 # r3)" by simp
  from calls p1 p2 c1 c2 c3 c4 c5 img r show ?thesis by blast
qed

theorem postprocess_image_two_stages_witness:
  "\<exists>j1 j2 j3 o1 o2 o3 r1 r2 r3.
     engine_calls (new_events example_state (fst (snd
       (postprocess_image example_env example_p example_args_in example_state))))
       = [j1, j2, j3]
   \<and> p_image_mask j1 = Some 1 \<and> p_denoising_strength j1 = 4 / 10
   \<and> p_image_mask j2 = Some 2 \<and> p_denoising_strength j2 = 4 / 10
   \<and> p_image_mask j3 = Some 3 \<and> p_denoising_strength j3 = 4 / 10
   \<and> p_init_images j1 = [7]
   \<and> process_images example_env j1 = Inr (o1 # r1) \<and> p_init_images j2 = [o1]
   \<and> process_images example_env j2 = Inr (o2 # r2) \<and> p_init_images j3 = [o2]
   \<and> process_images example_env j3 = Inr (o3 # r3)
   \<and> pp_image (fst (snd
        (postprocess_image example_env example_p example_args_in example_state))) = o3
   \<and> snd (snd (postprocess_image example_env example_p example_args_in example_state))
       = Inr ()"
proof -
  let ?a1 = "example_args\<lparr>ad_model := ''face_yolov8n.pt''\<rparr>"
  let ?a2 = "example_args\<lparr>ad_model := ''hand_yolov8n.pt''\<rparr>"
  let ?s1 = "fst (private_postprocess_image example_env (example_p\<lparr>p_idx := Some 0\<rparr>)
                    ?a1 0 example_state)"
  obtain p' st' r where
    run: "postprocess_image example_env example_p example_args_in example_state = (p', st', r)"
    by (cases "postprocess_image example_env example_p example_args_in example_state") auto
  have off: "\<not> getattr_flag (p_disable_adetailer example_p)"
    by (simp add: getattr_flag_def example_p_def)
  have on: "is_ad_enabled example_env example_args_in = Inr True"
    by (simp add: is_ad_enabled_def example_args_in_def example_env_def)
  have args: "get_args example_env example_args_in = Inr [?a1, ?a2]"
    by (simp add: get_args_def example_args_in_def example_env_def)
  have used: "ad_model ?a1 \<noteq> ''None''" "ad_model ?a2 \<noteq> ''None''"
    by simp_all
  have i: "(0::int) = (case p_idx example_p of None \<Rightarrow> - 1 | Some k \<Rightarrow> k) + 1"
    by (simp add: example_p_def)
  have det1: "snd (predict example_env ?a1 example_state)
                = Inr \<lparr>pred_masks = [1, 0, 2], pred_preview = Some 99\<rparr>"
    by (simp add: predict_def get_ad_model_def is_mediapipe_example example_env_def Let_def)
  have masks1: "mask_preprocess example_env
                  (pred_masks \<lparr>pred_masks = [1, 0, 2], pred_preview = Some (99::nat)\<rparr>) = [1, 2]"
    by (simp add: example_env_def)
  have det2: "snd (predict example_env ?a2 ?s1)
                = Inr \<lparr>pred_masks = [3], pred_preview = Some 98\<rparr>"
    by (simp add: predict_def get_ad_model_def is_mediapipe_example example_env_def Let_def)
  have masks2: "mask_preprocess example_env
                  (pred_masks \<lparr>pred_masks = [3], pred_preview = Some (98::nat)\<rparr>) = [3]"
    by (simp add: example_env_def)
  have new: "new_events example_state st' = events st'"
    by (simp add: new_events_def example_state_def)
  have ok: "\<forall>job \<in> set (engine_calls (new_events example_state st')).
              \<exists>out others. process_images example_env job = Inr (out # others)"
  proof
    fix job assume "job \<in> set (engine_calls (new_events example_state st'))"
    then have "(p_init_images job, p_image_mask job, p_seed job, p_subseed job)
        \<in> set (map (\<lambda>job. (p_init_images job, p_image_mask job, p_seed job, p_subseed job))
                  (engine_calls (events st')))"
      using new by simp
    with example_run(1) run
    have "(p_init_images job, p_image_mask job, p_seed job, p_subseed job)
        \<in> set [([7], Some 1, 1000, 2000), ([71], Some 2, 1001, 2001), ([712], Some 3, 1000, 2000)]"
      by simp
    then show "\<exists>out others. process_images example_env job = Inr (out # others)"
      by (auto simp: example_env_def)
  qed
  from postprocess_image_two_stages[OF off on args used i _ det1 masks1 refl det2 masks2 run ok]
  show ?thesis
    using run by (simp add: example_state_def example_args_def)
qed

end
